theory Spec2Isabelle
  imports Main
begin

unbundle bit_operations_syntax

section \<open>Constants of \<^verbatim>\<open>include/tinypkg.h\<close>\<close>

text \<open>
  Return codes are C \<^verbatim>\<open>int\<close>s; the functions of the package manager return them
  unchanged, so they are integers here too.
\<close>

abbreviation (input) TINYPKG_SUCCESS :: int where "TINYPKG_SUCCESS \<equiv> 0"
abbreviation (input) TINYPKG_ERROR :: int where "TINYPKG_ERROR \<equiv> - 1"
abbreviation (input) TINYPKG_ERROR_MEMORY :: int where "TINYPKG_ERROR_MEMORY \<equiv> - 2"
abbreviation (input) TINYPKG_ERROR_FILE :: int where "TINYPKG_ERROR_FILE \<equiv> - 3"
abbreviation (input) TINYPKG_ERROR_DEPENDENCY :: int where "TINYPKG_ERROR_DEPENDENCY \<equiv> - 6"

abbreviation (input) MAX_PATH :: nat where "MAX_PATH \<equiv> 4096"
abbreviation (input) MAX_CMD :: nat where "MAX_CMD \<equiv> 8192"
abbreviation (input) MAX_NAME :: nat where "MAX_NAME \<equiv> 256"
abbreviation (input) MAX_VERSION :: nat where "MAX_VERSION \<equiv> 64"
abbreviation (input) MAX_DESCRIPTION :: nat where "MAX_DESCRIPTION \<equiv> 512"

abbreviation (input) CACHE_DIR :: string where "CACHE_DIR \<equiv> ''/var/cache/tinypkg''"
abbreviation (input) LIB_DIR :: string where "LIB_DIR \<equiv> ''/var/lib/tinypkg''"

text \<open>
  The states of a package, \<^verbatim>\<open>package_state_t\<close>. The database file stores the ordinal
  with \<^verbatim>\<open>%d\<close> and reads it back through an \<^verbatim>\<open>int *\<close>, so a state is the integer.
\<close>

abbreviation (input) PKG_STATE_UNKNOWN :: int where "PKG_STATE_UNKNOWN \<equiv> 0"
abbreviation (input) PKG_STATE_AVAILABLE :: int where "PKG_STATE_AVAILABLE \<equiv> 1"
abbreviation (input) PKG_STATE_DOWNLOADING :: int where "PKG_STATE_DOWNLOADING \<equiv> 2"
abbreviation (input) PKG_STATE_BUILDING :: int where "PKG_STATE_BUILDING \<equiv> 3"
abbreviation (input) PKG_STATE_INSTALLING :: int where "PKG_STATE_INSTALLING \<equiv> 4"
abbreviation (input) PKG_STATE_INSTALLED :: int where "PKG_STATE_INSTALLED \<equiv> 5"
abbreviation (input) PKG_STATE_FAILED :: int where "PKG_STATE_FAILED \<equiv> 6"
abbreviation (input) PKG_STATE_BROKEN :: int where "PKG_STATE_BROKEN \<equiv> 7"

datatype build_type_t =
  BUILD_TYPE_AUTOTOOLS | BUILD_TYPE_CMAKE | BUILD_TYPE_MAKE | BUILD_TYPE_CUSTOM

datatype build_status_t =
  BUILD_STATUS_INIT | BUILD_STATUS_DOWNLOADING | BUILD_STATUS_EXTRACTING
  | BUILD_STATUS_CONFIGURING | BUILD_STATUS_BUILDING | BUILD_STATUS_INSTALLING
  | BUILD_STATUS_COMPLETE | BUILD_STATUS_FAILED

section \<open>C strings and formatted output\<close>

text \<open>
  A C string is the list of its characters before the terminating NUL.
  \<^verbatim>\<open>snprintf(buf, size, ...)\<close> keeps the first \<open>size - 1\<close> characters of the formatted
  text, and \<^verbatim>\<open>strncpy(dst, src, n)\<close> into a zeroed buffer of \<open>n + 1\<close> bytes keeps the
  first \<open>n\<close> characters.
\<close>

definition c_snprintf :: "nat \<Rightarrow> string \<Rightarrow> string" where
  "c_snprintf n s = take (n - 1) s"

definition c_strncpy :: "nat \<Rightarrow> string \<Rightarrow> string" where
  "c_strncpy n s = take n s"

text \<open>Decimal output of \<^verbatim>\<open>%d\<close>, \<^verbatim>\<open>%ld\<close> and \<^verbatim>\<open>%zu\<close>.\<close>

definition digit_char :: "nat \<Rightarrow> char" where
  "digit_char d =
     (if d = 0 then CHR ''0'' else if d = 1 then CHR ''1'' else if d = 2 then CHR ''2''
      else if d = 3 then CHR ''3'' else if d = 4 then CHR ''4'' else if d = 5 then CHR ''5''
      else if d = 6 then CHR ''6'' else if d = 7 then CHR ''7'' else if d = 8 then CHR ''8''
      else CHR ''9'')"

fun nat_to_dec :: "nat \<Rightarrow> string" where
  "nat_to_dec n = (if n < 10 then [digit_char n] else nat_to_dec (n div 10) @ [digit_char (n mod 10)])"

declare nat_to_dec.simps [simp del]

definition int_to_dec :: "int \<Rightarrow> string" where
  "int_to_dec i = (if i < 0 then CHR ''-'' # nat_to_dec (nat (- i)) else nat_to_dec (nat i))"

text \<open>
  \<^verbatim>\<open>utils_string_ends_with\<close>: the suffix is no longer than the string and the tail of
  the string of that length equals it.
\<close>

definition utils_string_ends_with :: "string \<Rightarrow> string \<Rightarrow> bool" where
  "utils_string_ends_with str suffix =
     (if length suffix > length str then False
      else drop (length str - length suffix) str = suffix)"

text \<open>
  \<^verbatim>\<open>utils_get_basename\<close> copies the path and calls \<^verbatim>\<open>basename\<close> of \<^verbatim>\<open>libgen.h\<close>: the
  empty path gives \<^verbatim>\<open>.\<close>, trailing slashes are dropped, a path of slashes only gives
  \<^verbatim>\<open>/\<close>, and otherwise the component after the last slash is returned. The copies
  are assumed to be allocated.
\<close>

definition utils_get_basename :: "string \<Rightarrow> string" where
  "utils_get_basename path =
     (if path = [] then ''.''
      else let t = dropWhile (\<lambda>c. c = CHR ''/'') (rev path)
           in if t = [] then ''/'' else rev (takeWhile (\<lambda>c. c \<noteq> CHR ''/'') t))"

section \<open>Packages and configuration (\<^verbatim>\<open>package.h\<close>, \<^verbatim>\<open>config.h\<close>)\<close>

text \<open>
  The fields of \<^verbatim>\<open>package_t\<close> and \<^verbatim>\<open>config_t\<close> that the modelled functions read.
  A \<^verbatim>\<open>char **\<close> array with its count is a list; the loader leaves the pointer NULL
  exactly when the list is empty.
\<close>

record package_t =
  name :: string
  version :: string
  description :: string
  source_url :: string
  checksum :: string
  build_system :: build_type_t
  build_cmd :: string
  install_cmd :: string
  post_install_cmd :: string
  configure_args :: string
  dependencies :: "string list"
  conflicts :: "string list"
  size_estimate :: nat
  state :: int
  install_time :: int

record config_t =
  parallel_jobs :: int
  install_prefix :: string
  debug_symbols :: bool
  keep_build_dir :: bool
  force_mode :: bool
  skip_dependencies :: bool

section \<open>The operating system\<close>

text \<open>
  The utilities of \<^verbatim>\<open>utils.c\<close> end in system calls. The system is a state \<open>'w\<close> with
  its operations: whether a path is a regular file (\<^verbatim>\<open>stat\<close>), running a shell command
  in a working directory (the exit status, or nothing when the child could not be
  run or waited for), the same with the captured output, \<^verbatim>\<open>system\<close>, and the
  recursive creation and removal of a directory.
\<close>

record 'w sys =
  sys_is_regular_file :: "'w \<Rightarrow> string \<Rightarrow> bool"
  sys_sh :: "'w \<Rightarrow> string \<Rightarrow> string option \<Rightarrow> int option \<times> 'w"
  sys_sh_output :: "'w \<Rightarrow> string \<Rightarrow> string option \<Rightarrow> (int \<times> string) option \<times> 'w"
  sys_system :: "'w \<Rightarrow> string \<Rightarrow> int \<times> 'w"
  sys_mkdir_p :: "'w \<Rightarrow> string \<Rightarrow> int \<times> 'w"
  sys_rm_rf :: "'w \<Rightarrow> string \<Rightarrow> int \<times> 'w"

text \<open>The calls made on the system are recorded, in order.\<close>

datatype syscall =
  RunCommand string "string option"
  | RunCommandOutput string "string option"
  | System string
  | CreateDirectory string
  | RemoveDirectory string

text \<open>
  A build context. \<open>ctx_addr\<close> is the address of the context, by which the table of
  active builds tells contexts apart; the fields \<^verbatim>\<open>start_time\<close>, \<^verbatim>\<open>end_time\<close> and
  \<^verbatim>\<open>build_pid\<close> are written or logged but never read by a decision, and are left out.
\<close>

record build_context_t =
  ctx_addr :: nat
  package :: package_t
  build_dir :: string
  source_dir :: string
  install_dir :: string
  status :: build_status_t

text \<open>
  The process state: the system, the calls made so far, and the table
  \<^verbatim>\<open>active_builds\<close> of \<^verbatim>\<open>build.c\<close>, whose first \<^verbatim>\<open>active_build_count\<close> slots are the
  list.
\<close>

record 'w proc =
  world :: 'w
  calls :: "syscall list"
  active_builds :: "build_context_t list"

definition utils_file_exists :: "'w sys \<Rightarrow> string \<Rightarrow> ('w, 'a) proc_scheme \<Rightarrow> bool" where
  "utils_file_exists os path s = sys_is_regular_file os (world s) path"

definition utils_run_command ::
  "'w sys \<Rightarrow> string \<Rightarrow> string option \<Rightarrow> ('w, 'a) proc_scheme \<Rightarrow> int \<times> ('w, 'a) proc_scheme" where
  "utils_run_command os cmd work_dir s =
     (let (st, w) = sys_sh os (world s) cmd work_dir;
          s' = s\<lparr>world := w, calls := calls s @ [RunCommand cmd work_dir]\<rparr>
      in (if st = Some 0 then TINYPKG_SUCCESS else TINYPKG_ERROR, s'))"

definition utils_run_command_with_output ::
  "'w sys \<Rightarrow> string \<Rightarrow> string option \<Rightarrow> ('w, 'a) proc_scheme
     \<Rightarrow> (int \<times> string option \<times> int) \<times> ('w, 'a) proc_scheme" where
  "utils_run_command_with_output os cmd work_dir s =
     (let (r, w) = sys_sh_output os (world s) cmd work_dir;
          s' = s\<lparr>world := w, calls := calls s @ [RunCommandOutput cmd work_dir]\<rparr>
      in case r of
           None \<Rightarrow> ((TINYPKG_ERROR, None, - 1), s')
         | Some (code, out) \<Rightarrow> ((TINYPKG_SUCCESS, Some out, code), s'))"

definition c_system :: "'w sys \<Rightarrow> string \<Rightarrow> ('w, 'a) proc_scheme \<Rightarrow> int \<times> ('w, 'a) proc_scheme" where
  "c_system os cmd s =
     (let (r, w) = sys_system os (world s) cmd
      in (r, s\<lparr>world := w, calls := calls s @ [System cmd]\<rparr>))"

definition utils_create_directory_recursive ::
  "'w sys \<Rightarrow> string \<Rightarrow> ('w, 'a) proc_scheme \<Rightarrow> int \<times> ('w, 'a) proc_scheme" where
  "utils_create_directory_recursive os path s =
     (let (r, w) = sys_mkdir_p os (world s) path
      in (r, s\<lparr>world := w, calls := calls s @ [CreateDirectory path]\<rparr>))"

definition utils_remove_directory_recursive ::
  "'w sys \<Rightarrow> string \<Rightarrow> ('w, 'a) proc_scheme \<Rightarrow> int \<times> ('w, 'a) proc_scheme" where
  "utils_remove_directory_recursive os path s =
     (let (r, w) = sys_rm_rf os (world s) path
      in (r, s\<lparr>world := w, calls := calls s @ [RemoveDirectory path]\<rparr>))"

section \<open>The build runner (\<^verbatim>\<open>build.c\<close>)\<close>

subsection \<open>The table of active builds\<close>

text \<open>
  A context is known by its address: \<^verbatim>\<open>remove_active_build\<close> compares pointers. It
  removes the first slot that holds the context and moves the later ones down.
\<close>

definition add_active_build ::
  "build_context_t \<Rightarrow> ('w, 'a) proc_scheme \<Rightarrow> int \<times> ('w, 'a) proc_scheme" where
  "add_active_build ctx s =
     (if length (active_builds s) \<ge> 16 then (TINYPKG_ERROR, s)
      else (TINYPKG_SUCCESS, s\<lparr>active_builds := active_builds s @ [ctx]\<rparr>))"

fun remove_first_ctx :: "nat \<Rightarrow> build_context_t list \<Rightarrow> build_context_t list" where
  "remove_first_ctx a [] = []"
| "remove_first_ctx a (c # cs) = (if ctx_addr c = a then cs else c # remove_first_ctx a cs)"

definition remove_active_build ::
  "build_context_t \<Rightarrow> ('w, 'a) proc_scheme \<Rightarrow> ('w, 'a) proc_scheme" where
  "remove_active_build ctx s = s\<lparr>active_builds := remove_first_ctx (ctx_addr ctx) (active_builds s)\<rparr>"


subsection \<open>Build contexts\<close>

definition build_context_setup_directories ::
  "'w sys \<Rightarrow> build_context_t \<Rightarrow> ('w, 'a) proc_scheme \<Rightarrow> int \<times> ('w, 'a) proc_scheme" where
  "build_context_setup_directories os ctx s =
     (let (r1, s1) = utils_create_directory_recursive os (build_dir ctx) s;
          (r2, s2) = utils_create_directory_recursive os (source_dir ctx) s1;
          (r3, s3) = utils_create_directory_recursive os (install_dir ctx) s2;
          result = ((0 OR r1) OR r2) OR r3
      in (if result = 0 then TINYPKG_SUCCESS else TINYPKG_ERROR, s3))"

text \<open>
  \<^verbatim>\<open>build_context_create\<close>: \<open>alloc\<close> is what \<^verbatim>\<open>calloc\<close> returns, the address of the new
  context or nothing. The three directories are formatted into buffers of
  \<^verbatim>\<open>MAX_PATH\<close> bytes.
\<close>

definition build_context_create ::
  "'w sys \<Rightarrow> nat option \<Rightarrow> package_t \<Rightarrow> ('w, 'a) proc_scheme
     \<Rightarrow> build_context_t option \<times> ('w, 'a) proc_scheme" where
  "build_context_create os alloc pkg s =
     (case alloc of
        None \<Rightarrow> (None, s)
      | Some a \<Rightarrow>
          let bd = c_snprintf MAX_PATH (CACHE_DIR @ ''/builds/'' @ name pkg @ ''-'' @ version pkg);
              ctx = \<lparr>ctx_addr = a, package = pkg, build_dir = bd,
                     source_dir = c_snprintf MAX_PATH (bd @ ''/source''),
                     install_dir = c_snprintf MAX_PATH (bd @ ''/install''),
                     status = BUILD_STATUS_INIT\<rparr>;
              (r, s') = build_context_setup_directories os ctx s
          in if r \<noteq> TINYPKG_SUCCESS then (None, s') else (Some ctx, s'))"

definition build_context_cleanup ::
  "'w sys \<Rightarrow> build_context_t \<Rightarrow> ('w, 'a) proc_scheme \<Rightarrow> int \<times> ('w, 'a) proc_scheme" where
  "build_context_cleanup os ctx s = utils_remove_directory_recursive os (build_dir ctx) s"

subsection \<open>The four steps\<close>

text \<open>
  Each step takes the context and returns the result code; the configure step also
  changes \<^verbatim>\<open>pkg->build_system\<close> through the context's package pointer, so the steps
  return the context too.
\<close>

definition quoted :: "string \<Rightarrow> string" where
  "quoted s = [CHR 0x27] @ s @ [CHR 0x27]"

definition build_download_source ::
  "'w sys \<Rightarrow> build_context_t \<Rightarrow> ('w, 'a) proc_scheme \<Rightarrow> int \<times> ('w, 'a) proc_scheme" where
  "build_download_source os ctx s =
     (let pkg = package ctx;
          basename = utils_get_basename (source_url pkg);
          download_path = c_snprintf MAX_PATH (CACHE_DIR @ ''/sources/'' @ basename)
      in if utils_file_exists os download_path s then (TINYPKG_SUCCESS, s)
         else
           let sources_dir = c_snprintf MAX_PATH (CACHE_DIR @ ''/sources'');
               (_, s1) = utils_create_directory_recursive os sources_dir s;
               cmd = c_snprintf MAX_CMD
                       (''wget -O '' @ quoted download_path @ '' '' @ quoted (source_url pkg)
                        @ '' || curl -o '' @ quoted download_path @ '' -L '' @ quoted (source_url pkg))
           in utils_run_command os cmd None s1)"

definition build_extract_source ::
  "'w sys \<Rightarrow> build_context_t \<Rightarrow> ('w, 'a) proc_scheme \<Rightarrow> int \<times> ('w, 'a) proc_scheme" where
  "build_extract_source os ctx s =
     (let pkg = package ctx;
          basename = utils_get_basename (source_url pkg);
          archive_path = c_snprintf MAX_PATH (CACHE_DIR @ ''/sources/'' @ basename)
      in if \<not> utils_file_exists os archive_path s then (TINYPKG_ERROR, s)
         else if utils_string_ends_with basename ''.tar.gz'' \<or> utils_string_ends_with basename ''.tgz''
         then utils_run_command os
                (c_snprintf MAX_CMD (''tar -xzf '' @ quoted archive_path @ '' -C ''
                   @ quoted (source_dir ctx) @ '' --strip-components=1'')) None s
         else if utils_string_ends_with basename ''.tar.bz2'' \<or> utils_string_ends_with basename ''.tbz2''
         then utils_run_command os
                (c_snprintf MAX_CMD (''tar -xjf '' @ quoted archive_path @ '' -C ''
                   @ quoted (source_dir ctx) @ '' --strip-components=1'')) None s
         else if utils_string_ends_with basename ''.tar.xz''
         then utils_run_command os
                (c_snprintf MAX_CMD (''tar -xJf '' @ quoted archive_path @ '' -C ''
                   @ quoted (source_dir ctx) @ '' --strip-components=1'')) None s
         else if utils_string_ends_with basename ''.zip''
         then utils_run_command os
                (c_snprintf MAX_CMD (''unzip -q '' @ quoted archive_path @ '' -d ''
                   @ quoted (source_dir ctx))) None s
         else (TINYPKG_ERROR, s))"

definition build_detect_system :: "'w sys \<Rightarrow> string \<Rightarrow> ('w, 'a) proc_scheme \<Rightarrow> build_type_t" where
  "build_detect_system os dir s =
     (if utils_file_exists os (c_snprintf MAX_PATH (dir @ ''/CMakeLists.txt'')) s then BUILD_TYPE_CMAKE
      else if utils_file_exists os (c_snprintf MAX_PATH (dir @ ''/configure'')) s then BUILD_TYPE_AUTOTOOLS
      else if utils_file_exists os (c_snprintf MAX_PATH (dir @ ''/Makefile'')) s then BUILD_TYPE_MAKE
      else BUILD_TYPE_AUTOTOOLS)"

definition build_run_autotools ::
  "'w sys \<Rightarrow> config_t \<Rightarrow> build_context_t \<Rightarrow> ('w, 'a) proc_scheme \<Rightarrow> int \<times> ('w, 'a) proc_scheme" where
  "build_run_autotools os cfg ctx s =
     (let configure_path = c_snprintf MAX_PATH (source_dir ctx @ ''/configure'');
          s1 = (if \<not> utils_file_exists os configure_path s
                then snd (utils_run_command os
                            (c_snprintf MAX_CMD ''./autogen.sh || autoreconf -fiv || ./bootstrap'')
                            (Some (source_dir ctx)) s)
                else s);
          prefix = install_prefix cfg;
          args = configure_args (package ctx);
          cmd = (if length args > 0
                 then c_snprintf MAX_CMD (''./configure --prefix='' @ prefix @ '' '' @ args)
                 else c_snprintf MAX_CMD (''./configure --prefix='' @ prefix))
      in utils_run_command os cmd (Some (source_dir ctx)) s1)"

definition build_run_cmake ::
  "'w sys \<Rightarrow> config_t \<Rightarrow> build_context_t \<Rightarrow> ('w, 'a) proc_scheme \<Rightarrow> int \<times> ('w, 'a) proc_scheme" where
  "build_run_cmake os cfg ctx s =
     (let prefix = install_prefix cfg;
          build_type = (if debug_symbols cfg then ''Debug'' else ''Release'');
          cmd = c_snprintf MAX_CMD
                  (''cmake -DCMAKE_BUILD_TYPE='' @ build_type @ '' -DCMAKE_INSTALL_PREFIX='' @ prefix
                   @ '' '' @ (if length (configure_args (package ctx)) > 0
                              then configure_args (package ctx) else []) @ '' .'')
      in utils_run_command os cmd (Some (source_dir ctx)) s)"

definition build_run_custom :: "build_context_t \<Rightarrow> int" where
  "build_run_custom ctx = (if length (build_cmd (package ctx)) = 0 then TINYPKG_ERROR else TINYPKG_SUCCESS)"

definition build_configure_package ::
  "'w sys \<Rightarrow> config_t \<Rightarrow> build_context_t \<Rightarrow> ('w, 'a) proc_scheme
     \<Rightarrow> (int \<times> build_context_t) \<times> ('w, 'a) proc_scheme" where
  "build_configure_package os cfg ctx s =
     (let pkg = package ctx;
          pkg' = (if build_system pkg = BUILD_TYPE_AUTOTOOLS \<and> length (build_cmd pkg) = 0
                  then pkg\<lparr>build_system := build_detect_system os (source_dir ctx) s\<rparr> else pkg);
          ctx' = ctx\<lparr>package := pkg'\<rparr>
      in case build_system pkg' of
           BUILD_TYPE_AUTOTOOLS \<Rightarrow> (let (r, s') = build_run_autotools os cfg ctx' s in ((r, ctx'), s'))
         | BUILD_TYPE_CMAKE \<Rightarrow> (let (r, s') = build_run_cmake os cfg ctx' s in ((r, ctx'), s'))
         | BUILD_TYPE_MAKE \<Rightarrow> ((TINYPKG_SUCCESS, ctx'), s)
         | BUILD_TYPE_CUSTOM \<Rightarrow> ((build_run_custom ctx', ctx'), s))"

definition build_compile_package ::
  "'w sys \<Rightarrow> config_t \<Rightarrow> build_context_t \<Rightarrow> ('w, 'a) proc_scheme \<Rightarrow> int \<times> ('w, 'a) proc_scheme" where
  "build_compile_package os cfg ctx s =
     (let pkg = package ctx;
          cmd = (if length (build_cmd pkg) > 0 then c_strncpy (MAX_CMD - 1) (build_cmd pkg)
                 else c_snprintf MAX_CMD (''make -j'' @ int_to_dec (parallel_jobs cfg)))
      in utils_run_command os cmd (Some (source_dir ctx)) s)"

subsection \<open>\<^verbatim>\<open>build_package\<close>\<close>

text \<open>
  The result of \<^verbatim>\<open>build_package\<close> is the return code together with the last state of
  the context (its package and status) before it is freed; there is no context when
  it could not be created. The result of \<^verbatim>\<open>add_active_build\<close> is dropped, as in the
  source. Each \<^verbatim>\<open>goto cleanup\<close> is the branch that skips the remaining steps.
\<close>

definition build_package_cleanup ::
  "'w sys \<Rightarrow> config_t \<Rightarrow> int \<Rightarrow> build_context_t \<Rightarrow> ('w, 'a) proc_scheme
     \<Rightarrow> (int \<times> build_context_t option) \<times> ('w, 'a) proc_scheme" where
  "build_package_cleanup os cfg result ctx s =
     (let ctx1 = (if result \<noteq> TINYPKG_SUCCESS then ctx\<lparr>status := BUILD_STATUS_FAILED\<rparr> else ctx);
          s1 = remove_active_build ctx1 s;
          s2 = (if \<not> keep_build_dir cfg \<or> result \<noteq> TINYPKG_SUCCESS
                then snd (build_context_cleanup os ctx1 s1) else s1)
      in ((result, Some ctx1), s2))"

definition build_package ::
  "'w sys \<Rightarrow> config_t \<Rightarrow> nat option \<Rightarrow> package_t \<Rightarrow> ('w, 'a) proc_scheme
     \<Rightarrow> (int \<times> build_context_t option) \<times> ('w, 'a) proc_scheme" where
  "build_package os cfg alloc pkg s =
     (case build_context_create os alloc pkg s of
        (None, s0) \<Rightarrow> ((TINYPKG_ERROR_MEMORY, None), s0)
      | (Some ctx0, s0) \<Rightarrow>
          let (_, s1) = add_active_build ctx0 s0;
              ctx1 = ctx0\<lparr>status := BUILD_STATUS_DOWNLOADING\<rparr>;
              (r1, s2) = build_download_source os ctx1 s1
          in if r1 \<noteq> TINYPKG_SUCCESS then build_package_cleanup os cfg r1 ctx1 s2
             else
               let ctx2 = ctx1\<lparr>status := BUILD_STATUS_EXTRACTING\<rparr>;
                   (r2, s3) = build_extract_source os ctx2 s2
               in if r2 \<noteq> TINYPKG_SUCCESS then build_package_cleanup os cfg r2 ctx2 s3
                  else
                    let ctx3 = ctx2\<lparr>status := BUILD_STATUS_CONFIGURING\<rparr>;
                        ((r3, ctx3'), s4) = build_configure_package os cfg ctx3 s3
                    in if r3 \<noteq> TINYPKG_SUCCESS then build_package_cleanup os cfg r3 ctx3' s4
                       else
                         let ctx4 = ctx3'\<lparr>status := BUILD_STATUS_BUILDING\<rparr>;
                             (r4, s5) = build_compile_package os cfg ctx4 s4
                         in if r4 \<noteq> TINYPKG_SUCCESS then build_package_cleanup os cfg r4 ctx4 s5
                            else build_package_cleanup os cfg r4
                                   (ctx4\<lparr>status := BUILD_STATUS_COMPLETE\<rparr>) s5)"

section \<open>The integrity verifier (\<^verbatim>\<open>security.c\<close>)\<close>

datatype hash_type_t = HASH_TYPE_MD5 | HASH_TYPE_SHA1 | HASH_TYPE_SHA256

text \<open>The field of \<^verbatim>\<open>g_security_ctx\<close> that the verifier reads.\<close>

record security_context_t =
  verify_checksums :: bool

text \<open>
  \<^verbatim>\<open>isxdigit\<close>, \<^verbatim>\<open>tolower\<close> and \<^verbatim>\<open>strcasecmp\<close> of the C locale, on character codes.
  An upper-case letter becomes lower-case by adding 32, which sets bit 5 of its code.
\<close>

definition c_isxdigit :: "char \<Rightarrow> bool" where
  "c_isxdigit c =
     (let n = (of_char c :: nat)
      in (48 \<le> n \<and> n \<le> 57) \<or> (65 \<le> n \<and> n \<le> 70) \<or> (97 \<le> n \<and> n \<le> 102))"

definition c_tolower :: "char \<Rightarrow> char" where
  "c_tolower c =
     (let n = (of_char c :: nat)
      in if 65 \<le> n \<and> n \<le> 90
         then (case c of Char b0 b1 b2 b3 b4 b5 b6 b7 \<Rightarrow> Char b0 b1 b2 b3 b4 True b6 b7)
         else c)"

definition c_strcasecmp_eq :: "string \<Rightarrow> string \<Rightarrow> bool" where
  "c_strcasecmp_eq a b = (map c_tolower a = map c_tolower b)"

text \<open>
  \<^verbatim>\<open>strtok(result, " \t\n")\<close>, first call: the delimiters in front are skipped and the
  token runs to the next delimiter; there is no token when nothing is left.
\<close>

definition hash_delim :: "char \<Rightarrow> bool" where
  "hash_delim c = (c = CHR '' '' \<or> c = CHR 0x09 \<or> c = CHR 0x0A)"

definition first_token :: "string \<Rightarrow> string option" where
  "first_token out =
     (let t = takeWhile (\<lambda>c. \<not> hash_delim c) (dropWhile hash_delim out)
      in if t = [] then None else Some t)"

definition run_hash_command ::
  "'w sys \<Rightarrow> string \<Rightarrow> string \<Rightarrow> nat \<Rightarrow> ('w, 'a) proc_scheme
     \<Rightarrow> (int \<times> string) \<times> ('w, 'a) proc_scheme" where
  "run_hash_command os file_path hash_cmd output_size s =
     (let cmd = c_snprintf MAX_CMD (hash_cmd @ '' '' @ quoted file_path);
          ((r, result, exit_code), s') = utils_run_command_with_output os cmd None s
      in if r = TINYPKG_SUCCESS \<and> exit_code = 0
         then (case result of
                 None \<Rightarrow> ((TINYPKG_ERROR, []), s')
               | Some out \<Rightarrow>
                   (case first_token out of
                      None \<Rightarrow> ((TINYPKG_ERROR, []), s')
                    | Some token \<Rightarrow> ((TINYPKG_SUCCESS, c_strncpy (output_size - 1) token), s')))
         else ((TINYPKG_ERROR, []), s'))"

definition security_calculate_checksum ::
  "'w sys \<Rightarrow> string \<Rightarrow> nat \<Rightarrow> hash_type_t \<Rightarrow> ('w, 'a) proc_scheme
     \<Rightarrow> (int \<times> string) \<times> ('w, 'a) proc_scheme" where
  "security_calculate_checksum os file_path hash_size type s =
     (if hash_size = 0 then ((TINYPKG_ERROR, []), s)
      else if \<not> utils_file_exists os file_path s then ((TINYPKG_ERROR, []), s)
      else
        let hash_cmd = (case type of HASH_TYPE_MD5 \<Rightarrow> ''md5sum''
                        | HASH_TYPE_SHA1 \<Rightarrow> ''sha1sum'' | HASH_TYPE_SHA256 \<Rightarrow> ''sha256sum'');
            check_cmd = c_snprintf MAX_CMD (''which '' @ hash_cmd @ '' >/dev/null 2>&1'');
            (rc, s1) = c_system os check_cmd s
        in if rc \<noteq> 0 then ((TINYPKG_ERROR, []), s1)
           else run_hash_command os file_path hash_cmd hash_size s1)"

definition security_verify_checksum ::
  "'w sys \<Rightarrow> security_context_t \<Rightarrow> string \<Rightarrow> string \<Rightarrow> hash_type_t \<Rightarrow> ('w, 'a) proc_scheme
     \<Rightarrow> int \<times> ('w, 'a) proc_scheme" where
  "security_verify_checksum os sctx file_path expected_hash type s =
     (if \<not> verify_checksums sctx then (TINYPKG_SUCCESS, s)
      else
        let ((result, calculated_hash), s') = security_calculate_checksum os file_path 256 type s
        in if result \<noteq> TINYPKG_SUCCESS then (result, s')
           else if c_strcasecmp_eq calculated_hash expected_hash then (TINYPKG_SUCCESS, s')
           else (TINYPKG_ERROR, s'))"

definition security_detect_hash_type :: "string \<Rightarrow> hash_type_t" where
  "security_detect_hash_type hash_string =
     (if \<not> list_all c_isxdigit hash_string then HASH_TYPE_SHA256
      else if length hash_string = 32 then HASH_TYPE_MD5
      else if length hash_string = 40 then HASH_TYPE_SHA1
      else if length hash_string = 64 then HASH_TYPE_SHA256
      else HASH_TYPE_SHA256)"

definition security_verify_package_integrity ::
  "'w sys \<Rightarrow> security_context_t \<Rightarrow> package_t \<Rightarrow> string \<Rightarrow> ('w, 'a) proc_scheme
     \<Rightarrow> int \<times> ('w, 'a) proc_scheme" where
  "security_verify_package_integrity os sctx pkg file_path s =
     (if \<not> verify_checksums sctx then (TINYPKG_SUCCESS, s)
      else if length (checksum pkg) = 0 then (TINYPKG_SUCCESS, s)
      else security_verify_checksum os sctx file_path (checksum pkg)
             (security_detect_hash_type (checksum pkg)) s)"

section \<open>Example inputs\<close>

text \<open>
  A package, a configuration and a small system for evaluating the model: the system
  state is the list of regular files. A \<^verbatim>\<open>wget\<close> command puts the archive into the
  source cache, \<^verbatim>\<open>make\<close> exits with the given status, the hash tool prints the given
  digest, and everything else succeeds.
\<close>

definition example_pkg :: package_t where
  "example_pkg = \<lparr>name = ''hello'', version = ''1.0'', description = ''demo'',
     source_url = ''https://example.org/hello-1.0.tar.gz'',
     checksum = ''d41d8cd98f00b204e9800998ecf8427e'',
     build_system = BUILD_TYPE_MAKE, build_cmd = [], install_cmd = [], post_install_cmd = [],
     configure_args = [], dependencies = [], conflicts = [], size_estimate = 0,
     state = PKG_STATE_UNKNOWN, install_time = 0\<rparr>"

definition example_os :: "int \<Rightarrow> string \<Rightarrow> (string list) sys" where
  "example_os make_status digest =
     \<lparr>sys_is_regular_file = (\<lambda>w p. p \<in> set w),
      sys_sh = (\<lambda>w cmd dir.
         if take 4 cmd = ''wget'' then (Some 0, ''/var/cache/tinypkg/sources/hello-1.0.tar.gz'' # w)
         else if take 4 cmd = ''make'' then (Some make_status, w)
         else (Some 0, w)),
      sys_sh_output = (\<lambda>w cmd dir. (Some (0, digest @ ''  archive''), w)),
      sys_system = (\<lambda>w cmd. (0, w)),
      sys_mkdir_p = (\<lambda>w p. (0, w)),
      sys_rm_rf = (\<lambda>w p. (0, w))\<rparr>"

definition example_cfg :: "bool \<Rightarrow> config_t" where
  "example_cfg keep = \<lparr>parallel_jobs = 4, install_prefix = ''/usr/local'', debug_symbols = False,
     keep_build_dir = keep, force_mode = False, skip_dependencies = False\<rparr>"

definition example_proc :: "build_context_t list \<Rightarrow> (string list) proc" where
  "example_proc table = \<lparr>world = [], calls = [], active_builds = table\<rparr>"

definition other_ctx :: "nat \<Rightarrow> build_context_t" where
  "other_ctx a = \<lparr>ctx_addr = a, package = example_pkg\<lparr>name := ''other''\<rparr>,
     build_dir = ''/var/cache/tinypkg/builds/other-1.0'',
     source_dir = ''/var/cache/tinypkg/builds/other-1.0/source'',
     install_dir = ''/var/cache/tinypkg/builds/other-1.0/install'',
     status = BUILD_STATUS_BUILDING\<rparr>"

section \<open>Properties of the build runner\<close>

lemma c_snprintf_short: "length s < n \<Longrightarrow> c_snprintf n s = s"
  by (simp add: c_snprintf_def)

lemma c_strncpy_short: "length s \<le> n \<Longrightarrow> c_strncpy n s = s"
  by (simp add: c_strncpy_def)

lemmas build_defs = build_package_def build_context_create_def build_context_setup_directories_def
  utils_create_directory_recursive_def utils_remove_directory_recursive_def utils_run_command_def
  utils_file_exists_def add_active_build_def remove_active_build_def build_download_source_def
  build_extract_source_def build_configure_package_def build_compile_package_def
  build_package_cleanup_def build_context_cleanup_def utils_get_basename_def utils_string_ends_with_def
  quoted_def build_run_custom_def build_run_cmake_def build_run_autotools_def build_detect_system_def

lemmas example_defs = example_pkg_def example_os_def example_cfg_def example_proc_def other_ctx_def
  c_snprintf_short c_strncpy_short int_to_dec_def nat_to_dec.simps digit_char_def

text \<open>The directories that \<^verbatim>\<open>utils_remove_directory_recursive\<close> was called on.\<close>

fun removed_dirs :: "syscall list \<Rightarrow> string list" where
  "removed_dirs [] = []"
| "removed_dirs (RemoveDirectory p # cs) = p # removed_dirs cs"
| "removed_dirs (c # cs) = removed_dirs cs"

lemma removed_dirs_append: "removed_dirs (xs @ ys) = removed_dirs xs @ removed_dirs ys"
  by (induction xs rule: removed_dirs.induct) simp_all

lemma removed_run_command:
  "removed_dirs (calls (snd (utils_run_command os cmd d s))) = removed_dirs (calls s)"
  by (simp add: utils_run_command_def removed_dirs_append split: prod.splits)

lemma removed_create_directory:
  "removed_dirs (calls (snd (utils_create_directory_recursive os p s))) = removed_dirs (calls s)"
  by (simp add: utils_create_directory_recursive_def removed_dirs_append split: prod.splits)

lemma removed_remove_directory:
  "removed_dirs (calls (snd (utils_remove_directory_recursive os p s))) = removed_dirs (calls s) @ [p]"
  by (simp add: utils_remove_directory_recursive_def removed_dirs_append split: prod.splits)

lemma removed_setup_directories:
  "removed_dirs (calls (snd (build_context_setup_directories os ctx s))) = removed_dirs (calls s)"
proof -
  obtain r1 s1 where a: "utils_create_directory_recursive os (build_dir ctx) s = (r1, s1)"
    by (cases "utils_create_directory_recursive os (build_dir ctx) s")
  obtain r2 s2 where b: "utils_create_directory_recursive os (source_dir ctx) s1 = (r2, s2)"
    by (cases "utils_create_directory_recursive os (source_dir ctx) s1")
  obtain r3 s3 where c: "utils_create_directory_recursive os (install_dir ctx) s2 = (r3, s3)"
    by (cases "utils_create_directory_recursive os (install_dir ctx) s2")
  have "removed_dirs (calls s1) = removed_dirs (calls s)"
    using removed_create_directory [of os "build_dir ctx" s] a by simp
  moreover have "removed_dirs (calls s2) = removed_dirs (calls s1)"
    using removed_create_directory [of os "source_dir ctx" s1] b by simp
  moreover have "removed_dirs (calls s3) = removed_dirs (calls s2)"
    using removed_create_directory [of os "install_dir ctx" s2] c by simp
  ultimately show ?thesis
    by (simp add: build_context_setup_directories_def a b c)
qed

lemma build_context_create_Some:
  assumes "build_context_create os alloc pkg s = (Some ctx, s')"
  shows "removed_dirs (calls s') = removed_dirs (calls s)
         \<and> build_dir ctx = c_snprintf MAX_PATH (CACHE_DIR @ ''/builds/'' @ name pkg @ ''-'' @ version pkg)"
proof -
  from assms obtain a where al: "alloc = Some a"
    by (cases alloc) (simp_all add: build_context_create_def)
  let ?bd = "c_snprintf MAX_PATH (CACHE_DIR @ ''/builds/'' @ name pkg @ ''-'' @ version pkg)"
  let ?c0 = "\<lparr>ctx_addr = a, package = pkg, build_dir = ?bd,
       source_dir = c_snprintf MAX_PATH (?bd @ ''/source''),
       install_dir = c_snprintf MAX_PATH (?bd @ ''/install''), status = BUILD_STATUS_INIT\<rparr>"
  from assms have st: "build_context_setup_directories os ?c0 s = (TINYPKG_SUCCESS, s') \<and> ctx = ?c0"
    by (simp add: build_context_create_def al Let_def split: prod.splits if_splits)
  have "removed_dirs (calls s') = removed_dirs (calls s)"
    using removed_setup_directories [of os ?c0 s] st by simp
  with st show ?thesis by simp
qed

lemma removed_download_source:
  "removed_dirs (calls (snd (build_download_source os ctx s))) = removed_dirs (calls s)"
  by (simp add: build_download_source_def Let_def removed_run_command split: prod.splits)
     (metis removed_create_directory snd_conv)

lemma removed_extract_source:
  "removed_dirs (calls (snd (build_extract_source os ctx s))) = removed_dirs (calls s)"
  by (simp add: build_extract_source_def Let_def removed_run_command)

lemma removed_run_autotools:
  "removed_dirs (calls (snd (build_run_autotools os cfg ctx s))) = removed_dirs (calls s)"
  by (simp add: build_run_autotools_def Let_def removed_run_command)

lemma removed_run_cmake:
  "removed_dirs (calls (snd (build_run_cmake os cfg ctx s))) = removed_dirs (calls s)"
  by (simp add: build_run_cmake_def Let_def removed_run_command)

lemma removed_run_autotools_pair:
  "build_run_autotools os cfg ctx s = (r, s') \<Longrightarrow> removed_dirs (calls s') = removed_dirs (calls s)"
  using removed_run_autotools [of os cfg ctx s] by simp

lemma removed_run_cmake_pair:
  "build_run_cmake os cfg ctx s = (r, s') \<Longrightarrow> removed_dirs (calls s') = removed_dirs (calls s)"
  using removed_run_cmake [of os cfg ctx s] by simp

lemma configure_package_effect:
  assumes "build_configure_package os cfg ctx s = ((r, ctx'), s')"
  shows "removed_dirs (calls s') = removed_dirs (calls s) \<and> build_dir ctx' = build_dir ctx
         \<and> ctx_addr ctx' = ctx_addr ctx"
  using assms
  by (auto simp: build_configure_package_def Let_def
      split: build_type_t.splits prod.splits if_splits
      dest: removed_run_autotools_pair removed_run_cmake_pair)

lemma removed_compile_package:
  "removed_dirs (calls (snd (build_compile_package os cfg ctx s))) = removed_dirs (calls s)"
  by (simp add: build_compile_package_def Let_def removed_run_command)

lemma calls_add_active_build: "calls (snd (add_active_build ctx s)) = calls s"
  by (simp add: add_active_build_def)

lemma package_cleanup_effect:
  assumes "build_package_cleanup os cfg r ctx s = ((result, Some ctx'), s')"
  shows "result = r \<and> build_dir ctx' = build_dir ctx
         \<and> removed_dirs (calls s') = removed_dirs (calls s)
              @ (if \<not> keep_build_dir cfg \<or> r \<noteq> TINYPKG_SUCCESS then [build_dir ctx] else [])"
  using assms
  by (auto simp: build_package_cleanup_def Let_def build_context_cleanup_def remove_active_build_def
      removed_remove_directory split: if_splits)


text \<open>
  C3, as amended. When \<^verbatim>\<open>build_package\<close> has created its context, the build directory
  is the one formatted from the package's name and version; if \<^verbatim>\<open>keep_build_dir\<close> is
  unset, the build ends with exactly one more recursive removal, of that directory;
  if \<^verbatim>\<open>keep_build_dir\<close> is set and the build succeeded, nothing is removed.
\<close>

theorem build_package_build_dir_removal:
  assumes "build_package os cfg alloc pkg s = ((result, Some ctx), s')"
  shows "build_dir ctx = c_snprintf MAX_PATH (CACHE_DIR @ ''/builds/'' @ name pkg @ ''-'' @ version pkg)
         \<and> (\<not> keep_build_dir cfg \<longrightarrow>
               removed_dirs (calls s') = removed_dirs (calls s) @ [build_dir ctx])
         \<and> (keep_build_dir cfg \<and> result = TINYPKG_SUCCESS \<longrightarrow>
               removed_dirs (calls s') = removed_dirs (calls s))"
proof -
  from assms obtain ctx0 s0 where cr: "build_context_create os alloc pkg s = (Some ctx0, s0)"
    by (cases "build_context_create os alloc pkg s"; cases "fst (build_context_create os alloc pkg s)")
       (auto simp: build_package_def)
  note c0 = build_context_create_Some [OF cr]
  define ctx1 where "ctx1 = ctx0\<lparr>status := BUILD_STATUS_DOWNLOADING\<rparr>"
  define s1 where "s1 = snd (add_active_build ctx0 s0)"
  have s1: "removed_dirs (calls s1) = removed_dirs (calls s)"
    using c0 by (simp add: s1_def calls_add_active_build)
  obtain r1 s2 where dl: "build_download_source os ctx1 s1 = (r1, s2)"
    by (cases "build_download_source os ctx1 s1")
  have s2: "removed_dirs (calls s2) = removed_dirs (calls s)"
    using removed_download_source [of os ctx1 s1] dl s1 by simp
  define ctx2 where "ctx2 = ctx1\<lparr>status := BUILD_STATUS_EXTRACTING\<rparr>"
  obtain r2 s3 where ex: "build_extract_source os ctx2 s2 = (r2, s3)"
    by (cases "build_extract_source os ctx2 s2")
  have s3: "removed_dirs (calls s3) = removed_dirs (calls s)"
    using removed_extract_source [of os ctx2 s2] ex s2 by simp
  define ctx3 where "ctx3 = ctx2\<lparr>status := BUILD_STATUS_CONFIGURING\<rparr>"
  obtain r3 ctx3' s4 where cf: "build_configure_package os cfg ctx3 s3 = ((r3, ctx3'), s4)"
    by (cases "build_configure_package os cfg ctx3 s3") auto
  have s4: "removed_dirs (calls s4) = removed_dirs (calls s)" and b3: "build_dir ctx3' = build_dir ctx0"
    using configure_package_effect [OF cf] s3 by (simp_all add: ctx3_def ctx2_def ctx1_def)
  define ctx4 where "ctx4 = ctx3'\<lparr>status := BUILD_STATUS_BUILDING\<rparr>"
  obtain r4 s5 where cp: "build_compile_package os cfg ctx4 s4 = (r4, s5)"
    by (cases "build_compile_package os cfg ctx4 s4")
  have s5: "removed_dirs (calls s5) = removed_dirs (calls s)"
    using removed_compile_package [of os cfg ctx4 s4] cp s4 by simp
  have unfolded: "build_package os cfg alloc pkg s =
      (if r1 \<noteq> TINYPKG_SUCCESS then build_package_cleanup os cfg r1 ctx1 s2
       else if r2 \<noteq> TINYPKG_SUCCESS then build_package_cleanup os cfg r2 ctx2 s3
       else if r3 \<noteq> TINYPKG_SUCCESS then build_package_cleanup os cfg r3 ctx3' s4
       else if r4 \<noteq> TINYPKG_SUCCESS then build_package_cleanup os cfg r4 ctx4 s5
       else build_package_cleanup os cfg r4 (ctx4\<lparr>status := BUILD_STATUS_COMPLETE\<rparr>) s5)"
    using cr dl ex cf cp
    by (simp add: build_package_def Let_def case_prod_beta s1_def ctx1_def ctx2_def ctx3_def ctx4_def)
  consider (a) "r1 \<noteq> 0" | (b) "r1 = 0" "r2 \<noteq> 0" | (c) "r1 = 0" "r2 = 0" "r3 \<noteq> 0"
    | (d) "r1 = 0" "r2 = 0" "r3 = 0" "r4 \<noteq> 0" | (e) "r1 = 0" "r2 = 0" "r3 = 0" "r4 = 0"
    by blast
  then show ?thesis
  proof cases
    case a
    with unfolded assms have "build_package_cleanup os cfg r1 ctx1 s2 = ((result, Some ctx), s')" by simp
    from package_cleanup_effect [OF this] a s2 c0 show ?thesis by (simp add: ctx1_def)
  next
    case b
    with unfolded assms have "build_package_cleanup os cfg r2 ctx2 s3 = ((result, Some ctx), s')" by simp
    from package_cleanup_effect [OF this] b s3 c0 show ?thesis by (simp add: ctx1_def ctx2_def)
  next
    case c
    with unfolded assms have "build_package_cleanup os cfg r3 ctx3' s4 = ((result, Some ctx), s')" by simp
    from package_cleanup_effect [OF this] c s4 b3 c0 show ?thesis by simp
  next
    case d
    with unfolded assms have "build_package_cleanup os cfg r4 ctx4 s5 = ((result, Some ctx), s')" by simp
    from package_cleanup_effect [OF this] d s5 b3 c0 show ?thesis by (simp add: ctx4_def)
  next
    case e
    with unfolded assms
    have "build_package_cleanup os cfg r4 (ctx4\<lparr>status := BUILD_STATUS_COMPLETE\<rparr>) s5
            = ((result, Some ctx), s')" by simp
    from package_cleanup_effect [OF this] e s5 b3 c0 show ?thesis by (simp add: ctx4_def)
  qed
qed

lemma example_build_run:
  "build_package (example_os st []) (example_cfg keep) (Some 42) example_pkg (example_proc [])
     = ((if st = 0 then TINYPKG_SUCCESS else TINYPKG_ERROR,
         Some \<lparr>ctx_addr = 42, package = example_pkg,
               build_dir = ''/var/cache/tinypkg/builds/hello-1.0'',
               source_dir = ''/var/cache/tinypkg/builds/hello-1.0/source'',
               install_dir = ''/var/cache/tinypkg/builds/hello-1.0/install'',
               status = (if st = 0 then BUILD_STATUS_COMPLETE else BUILD_STATUS_FAILED)\<rparr>),
        \<lparr>world = [''/var/cache/tinypkg/sources/hello-1.0.tar.gz''],
         calls = [CreateDirectory ''/var/cache/tinypkg/builds/hello-1.0'',
                  CreateDirectory ''/var/cache/tinypkg/builds/hello-1.0/source'',
                  CreateDirectory ''/var/cache/tinypkg/builds/hello-1.0/install'',
                  CreateDirectory ''/var/cache/tinypkg/sources'',
                  RunCommand (''wget -O '' @ quoted ''/var/cache/tinypkg/sources/hello-1.0.tar.gz''
                     @ '' '' @ quoted ''https://example.org/hello-1.0.tar.gz''
                     @ '' || curl -o '' @ quoted ''/var/cache/tinypkg/sources/hello-1.0.tar.gz''
                     @ '' -L '' @ quoted ''https://example.org/hello-1.0.tar.gz'') None,
                  RunCommand (''tar -xzf '' @ quoted ''/var/cache/tinypkg/sources/hello-1.0.tar.gz''
                     @ '' -C '' @ quoted ''/var/cache/tinypkg/builds/hello-1.0/source''
                     @ '' --strip-components=1'') None,
                  RunCommand ''make -j4'' (Some ''/var/cache/tinypkg/builds/hello-1.0/source'')]
                 @ (if keep \<and> st = 0 then []
                    else [RemoveDirectory ''/var/cache/tinypkg/builds/hello-1.0'']),
         active_builds = []\<rparr>)"
  by (simp add: build_defs example_defs Let_def)

theorem build_package_build_dir_removal_witness:
  "removed_dirs (calls (snd (build_package (example_os 0 []) (example_cfg False) (Some 42)
       example_pkg (example_proc [])))) = [''/var/cache/tinypkg/builds/hello-1.0'']
   \<and> removed_dirs (calls (snd (build_package (example_os 0 []) (example_cfg True) (Some 42)
       example_pkg (example_proc [])))) = []"
proof -
  note r1 = example_build_run [of 0 False] and r2 = example_build_run [of 0 True]
  show ?thesis
    using build_package_build_dir_removal [OF r1] build_package_build_dir_removal [OF r2]
    unfolding r1 r2 by simp
qed

text \<open>
  C3 as stated fails: with \<^verbatim>\<open>keep_build_dir\<close> set and a successful build, the build
  directory is not removed.
\<close>

theorem build_dir_kept_after_success_counterexample:
  "keep_build_dir (example_cfg True)
   \<and> fst (fst (build_package (example_os 0 []) (example_cfg True) (Some 42)
         example_pkg (example_proc []))) = TINYPKG_SUCCESS
   \<and> removed_dirs (calls (snd (build_package (example_os 0 []) (example_cfg True) (Some 42)
         example_pkg (example_proc [])))) = []"
  unfolding example_build_run by (simp add: example_cfg_def)

text \<open>With the flag set and a failed compile step the directory is removed.\<close>

lemma build_dir_removed_after_failure:
  "keep_build_dir (example_cfg True)
   \<and> fst (fst (build_package (example_os 2 []) (example_cfg True) (Some 42)
         example_pkg (example_proc []))) = TINYPKG_ERROR
   \<and> removed_dirs (calls (snd (build_package (example_os 2 []) (example_cfg True) (Some 42)
         example_pkg (example_proc [])))) = [''/var/cache/tinypkg/builds/hello-1.0'']"
  unfolding example_build_run by (simp add: example_cfg_def)



text \<open>
  The download step never looks at the checksum: its result is the same for every
  checksum of the package.
\<close>

lemma build_download_source_ignores_checksum:
  "build_download_source os (ctx\<lparr>package := (package ctx)\<lparr>checksum := c\<rparr>\<rparr>) s
     = build_download_source os ctx s"
  by (simp add: build_download_source_def Let_def)


section \<open>Properties of the integrity verifier\<close>

lemmas security_defs = security_verify_package_integrity_def security_verify_checksum_def
  security_calculate_checksum_def run_hash_command_def utils_run_command_with_output_def
  c_system_def first_token_def hash_delim_def security_detect_hash_type_def c_isxdigit_def
  c_strcasecmp_eq_def c_tolower_def utils_file_exists_def quoted_def

text \<open>
  C2. The archive that the example system downloads has the MD5 digest
  \<^verbatim>\<open>0123456789abcdef0123456789abcdef\<close>, the package declares another one, and the
  verifier, were it called on the archive, would report the mismatch. The download
  step and the whole build succeed all the same.
\<close>

theorem build_succeeds_on_digest_mismatch:
  "checksum example_pkg = ''d41d8cd98f00b204e9800998ecf8427e''
   \<and> fst (security_verify_package_integrity (example_os 0 ''0123456789abcdef0123456789abcdef'')
           \<lparr>verify_checksums = True\<rparr> example_pkg ''/var/cache/tinypkg/sources/hello-1.0.tar.gz''
           \<lparr>world = [''/var/cache/tinypkg/sources/hello-1.0.tar.gz''], calls = [],
            active_builds = []\<rparr>) = TINYPKG_ERROR
   \<and> fst (fst (build_package (example_os 0 ''0123456789abcdef0123456789abcdef'')
           (example_cfg False) (Some 42) example_pkg (example_proc []))) = TINYPKG_SUCCESS
   \<and> world (snd (build_package (example_os 0 ''0123456789abcdef0123456789abcdef'')
           (example_cfg False) (Some 42) example_pkg (example_proc [])))
       = [''/var/cache/tinypkg/sources/hello-1.0.tar.gz'']"
  by (simp add: security_defs build_defs example_defs Let_def)

text \<open>
  C8 as stated fails: with checksum verification switched off (the value of the
  zero-initialised \<^verbatim>\<open>g_security_ctx\<close> before \<^verbatim>\<open>security_init\<close>), verification returns
  success although the digest of the file differs from the expected one.
\<close>

theorem verify_checksum_disabled_counterexample:
  "fst (security_calculate_checksum (example_os 0 ''0123456789abcdef0123456789abcdef'')
          ''/var/cache/tinypkg/sources/hello-1.0.tar.gz'' 256 HASH_TYPE_MD5
          \<lparr>world = [''/var/cache/tinypkg/sources/hello-1.0.tar.gz''], calls = [],
           active_builds = []\<rparr>)
     = (TINYPKG_SUCCESS, ''0123456789abcdef0123456789abcdef'')
   \<and> \<not> c_strcasecmp_eq ''0123456789abcdef0123456789abcdef'' ''d41d8cd98f00b204e9800998ecf8427e''
   \<and> fst (security_verify_checksum (example_os 0 ''0123456789abcdef0123456789abcdef'')
          \<lparr>verify_checksums = False\<rparr> ''/var/cache/tinypkg/sources/hello-1.0.tar.gz''
          ''d41d8cd98f00b204e9800998ecf8427e'' HASH_TYPE_MD5
          \<lparr>world = [''/var/cache/tinypkg/sources/hello-1.0.tar.gz''], calls = [],
           active_builds = []\<rparr>)
     = TINYPKG_SUCCESS"
  by (simp add: security_defs example_defs Let_def)

lemma security_detect_hash_type_hex:
  "list_all c_isxdigit h \<Longrightarrow>
     security_detect_hash_type h =
       (if length h = 32 then HASH_TYPE_MD5 else if length h = 40 then HASH_TYPE_SHA1
        else HASH_TYPE_SHA256)"
  by (simp add: security_detect_hash_type_def)

lemma security_verify_checksum_result:
  assumes "verify_checksums sctx"
    and "security_calculate_checksum os path 256 type s = ((r, d), s')"
  shows "security_verify_checksum os sctx path expected type s
           = (if r \<noteq> TINYPKG_SUCCESS then r
              else if map c_tolower d = map c_tolower expected then TINYPKG_SUCCESS
              else TINYPKG_ERROR, s')"
  using assms by (simp add: security_verify_checksum_def c_strcasecmp_eq_def)

text \<open>
  C8, as amended. A digest of hexadecimal digits selects MD5 at length 32, SHA-1 at
  length 40 and SHA-256 otherwise. When checksum verification is enabled,
  \<^verbatim>\<open>security_verify_checksum\<close> returns success exactly when the digest of the file can
  be computed and equals the expected digest up to the case of letters, and it returns
  \<^verbatim>\<open>TINYPKG_ERROR\<close> when the computed digest differs. When checksum verification is
  disabled, it returns success and leaves the process as it was: no command is run and
  no digest is computed.
\<close>

theorem security_verify_checksum_by_flag:
  "(list_all c_isxdigit h \<longrightarrow>
      security_detect_hash_type h =
        (if length h = 32 then HASH_TYPE_MD5 else if length h = 40 then HASH_TYPE_SHA1
         else HASH_TYPE_SHA256))
   \<and> (verify_checksums sctx \<longrightarrow>
         (fst (security_verify_checksum os sctx path expected type s) = TINYPKG_SUCCESS
            \<longleftrightarrow> (\<exists>d s'. security_calculate_checksum os path 256 type s = ((TINYPKG_SUCCESS, d), s')
                         \<and> map c_tolower d = map c_tolower expected))
         \<and> (\<forall>d s'. security_calculate_checksum os path 256 type s = ((TINYPKG_SUCCESS, d), s')
                \<and> map c_tolower d \<noteq> map c_tolower expected
                \<longrightarrow> fst (security_verify_checksum os sctx path expected type s) = TINYPKG_ERROR))
   \<and> (\<not> verify_checksums sctx \<longrightarrow>
         security_verify_checksum os sctx path expected type s = (TINYPKG_SUCCESS, s)
         \<and> calls (snd (security_verify_checksum os sctx path expected type s)) = calls s)"
proof -
  obtain r d s' where c: "security_calculate_checksum os path 256 type s = ((r, d), s')"
    by (cases "security_calculate_checksum os path 256 type s") auto
  have enabled: "verify_checksums sctx \<longrightarrow>
      (fst (security_verify_checksum os sctx path expected type s) = TINYPKG_SUCCESS
         \<longleftrightarrow> (\<exists>d s'. security_calculate_checksum os path 256 type s = ((TINYPKG_SUCCESS, d), s')
                      \<and> map c_tolower d = map c_tolower expected))
      \<and> (\<forall>d s'. security_calculate_checksum os path 256 type s = ((TINYPKG_SUCCESS, d), s')
             \<and> map c_tolower d \<noteq> map c_tolower expected
             \<longrightarrow> fst (security_verify_checksum os sctx path expected type s) = TINYPKG_ERROR)"
  proof
    assume v: "verify_checksums sctx"
    show "(fst (security_verify_checksum os sctx path expected type s) = TINYPKG_SUCCESS
         \<longleftrightarrow> (\<exists>d s'. security_calculate_checksum os path 256 type s = ((TINYPKG_SUCCESS, d), s')
                      \<and> map c_tolower d = map c_tolower expected))
      \<and> (\<forall>d s'. security_calculate_checksum os path 256 type s = ((TINYPKG_SUCCESS, d), s')
             \<and> map c_tolower d \<noteq> map c_tolower expected
             \<longrightarrow> fst (security_verify_checksum os sctx path expected type s) = TINYPKG_ERROR)"
      using security_verify_checksum_result [OF v c, of expected] c by auto
  qed
  have disabled: "\<not> verify_checksums sctx \<longrightarrow>
      security_verify_checksum os sctx path expected type s = (TINYPKG_SUCCESS, s)
      \<and> calls (snd (security_verify_checksum os sctx path expected type s)) = calls s"
    by (simp add: security_verify_checksum_def)
  from enabled disabled show ?thesis
    by (simp add: security_detect_hash_type_hex)
qed

text \<open>
  With verification enabled, the digest in upper case is accepted, and the digest with
  its last nibble changed from \<^verbatim>\<open>e\<close> to \<^verbatim>\<open>f\<close> is refused. With verification disabled,
  the changed digest is accepted and no call is made on the system.
\<close>

theorem security_verify_checksum_by_flag_witness:
  "verify_checksums \<lparr>verify_checksums = True\<rparr>
   \<and> list_all c_isxdigit ''d41d8cd98f00b204e9800998ecf8427e''
   \<and> security_detect_hash_type ''d41d8cd98f00b204e9800998ecf8427e'' = HASH_TYPE_MD5
   \<and> fst (security_verify_checksum (example_os 0 ''D41D8CD98F00B204E9800998ECF8427E'')
          \<lparr>verify_checksums = True\<rparr> ''/var/cache/tinypkg/sources/hello-1.0.tar.gz''
          ''d41d8cd98f00b204e9800998ecf8427e'' HASH_TYPE_MD5
          \<lparr>world = [''/var/cache/tinypkg/sources/hello-1.0.tar.gz''], calls = [],
           active_builds = []\<rparr>) = TINYPKG_SUCCESS
   \<and> fst (security_verify_checksum (example_os 0 ''d41d8cd98f00b204e9800998ecf8427f'')
          \<lparr>verify_checksums = True\<rparr> ''/var/cache/tinypkg/sources/hello-1.0.tar.gz''
          ''d41d8cd98f00b204e9800998ecf8427e'' HASH_TYPE_MD5
          \<lparr>world = [''/var/cache/tinypkg/sources/hello-1.0.tar.gz''], calls = [],
           active_builds = []\<rparr>) = TINYPKG_ERROR
   \<and> \<not> verify_checksums \<lparr>verify_checksums = False\<rparr>
   \<and> security_verify_checksum (example_os 0 ''d41d8cd98f00b204e9800998ecf8427f'')
          \<lparr>verify_checksums = False\<rparr> ''/var/cache/tinypkg/sources/hello-1.0.tar.gz''
          ''d41d8cd98f00b204e9800998ecf8427e'' HASH_TYPE_MD5
          \<lparr>world = [''/var/cache/tinypkg/sources/hello-1.0.tar.gz''], calls = [],
           active_builds = []\<rparr>
      = (TINYPKG_SUCCESS,
         \<lparr>world = [''/var/cache/tinypkg/sources/hello-1.0.tar.gz''], calls = [],
          active_builds = []\<rparr>)"
proof -
  let ?path = "''/var/cache/tinypkg/sources/hello-1.0.tar.gz''"
  let ?s = "\<lparr>world = [?path], calls = [], active_builds = []\<rparr> :: (string list) proc"
  let ?exp = "''d41d8cd98f00b204e9800998ecf8427e''"
  note upper = security_verify_checksum_by_flag [where h = ?exp
      and sctx = "\<lparr>verify_checksums = True\<rparr>"
      and os = "example_os 0 ''D41D8CD98F00B204E9800998ECF8427E''" and path = ?path
      and expected = ?exp and type = HASH_TYPE_MD5 and s = ?s]
  note flipped = security_verify_checksum_by_flag [where h = ?exp
      and sctx = "\<lparr>verify_checksums = True\<rparr>"
      and os = "example_os 0 ''d41d8cd98f00b204e9800998ecf8427f''" and path = ?path
      and expected = ?exp and type = HASH_TYPE_MD5 and s = ?s]
  note off = security_verify_checksum_by_flag [where h = ?exp
      and sctx = "\<lparr>verify_checksums = False\<rparr>"
      and os = "example_os 0 ''d41d8cd98f00b204e9800998ecf8427f''" and path = ?path
      and expected = ?exp and type = HASH_TYPE_MD5 and s = ?s]
  have hex: "list_all c_isxdigit ?exp" by (simp add: c_isxdigit_def)
  have cu: "security_calculate_checksum (example_os 0 ''D41D8CD98F00B204E9800998ECF8427E'')
      ?path 256 HASH_TYPE_MD5 ?s
      = ((TINYPKG_SUCCESS, ''D41D8CD98F00B204E9800998ECF8427E''),
         snd (security_calculate_checksum (example_os 0 ''D41D8CD98F00B204E9800998ECF8427E'')
                ?path 256 HASH_TYPE_MD5 ?s))"
    by (simp add: security_defs example_defs Let_def)
  have cf: "security_calculate_checksum (example_os 0 ''d41d8cd98f00b204e9800998ecf8427f'')
      ?path 256 HASH_TYPE_MD5 ?s
      = ((TINYPKG_SUCCESS, ''d41d8cd98f00b204e9800998ecf8427f''),
         snd (security_calculate_checksum (example_os 0 ''d41d8cd98f00b204e9800998ecf8427f'')
                ?path 256 HASH_TYPE_MD5 ?s))"
    by (simp add: security_defs example_defs Let_def)
  have lu: "map c_tolower ''D41D8CD98F00B204E9800998ECF8427E'' = map c_tolower ?exp"
    by (simp add: c_tolower_def)
  have lf: "map c_tolower ''d41d8cd98f00b204e9800998ecf8427f'' \<noteq> map c_tolower ?exp"
    by (simp add: c_tolower_def)
  have on: "verify_checksums \<lparr>verify_checksums = True\<rparr>"
    and no: "\<not> verify_checksums \<lparr>verify_checksums = False\<rparr>"
    by simp_all
  from upper [THEN conjunct1] hex
  have w1: "security_detect_hash_type ?exp = HASH_TYPE_MD5" by simp
  from cu lu have "\<exists>d s'.
      security_calculate_checksum (example_os 0 ''D41D8CD98F00B204E9800998ECF8427E'')
        ?path 256 HASH_TYPE_MD5 ?s = ((TINYPKG_SUCCESS, d), s')
      \<and> map c_tolower d = map c_tolower ?exp"
    by blast
  with upper [THEN conjunct2, THEN conjunct1, rule_format, OF on, THEN conjunct1]
  have w2: "fst (security_verify_checksum (example_os 0 ''D41D8CD98F00B204E9800998ECF8427E'')
      \<lparr>verify_checksums = True\<rparr> ?path ?exp HASH_TYPE_MD5 ?s) = TINYPKG_SUCCESS"
    by blast
  from flipped [THEN conjunct2, THEN conjunct1, rule_format, OF on, THEN conjunct2] cf lf
  have w3: "fst (security_verify_checksum (example_os 0 ''d41d8cd98f00b204e9800998ecf8427f'')
      \<lparr>verify_checksums = True\<rparr> ?path ?exp HASH_TYPE_MD5 ?s) = TINYPKG_ERROR"
    by blast
  from off [THEN conjunct2, THEN conjunct2, rule_format, OF no, THEN conjunct1]
  have w4: "security_verify_checksum (example_os 0 ''d41d8cd98f00b204e9800998ecf8427f'')
      \<lparr>verify_checksums = False\<rparr> ?path ?exp HASH_TYPE_MD5 ?s = (TINYPKG_SUCCESS, ?s)" .
  from on hex w1 w2 w3 no w4 show ?thesis by blast
qed


section \<open>The dependency resolver (\<^verbatim>\<open>dependency.c\<close>)\<close>

text \<open>
  A node of the graph (\<^verbatim>\<open>dependency_node_t\<close>) holds the package name, copied into a
  buffer of \<^verbatim>\<open>MAX_NAME\<close> bytes, the names of its dependencies (none while the pointer is
  NULL), and the two marks of the cycle check. The graph is the linked list of nodes from
  its head, with \<^verbatim>\<open>node_count\<close> and \<^verbatim>\<open>has_cycles\<close>. Allocations are assumed to succeed.
\<close>

record dependency_node_t =
  package_name :: string
  node_dependencies :: "string list"
  visited :: bool
  in_stack :: bool

record dependency_graph_t =
  nodes :: "dependency_node_t list"
  node_count :: nat
  has_cycles :: bool

text \<open>
  The repository of package definitions: \<^verbatim>\<open>package_load_info\<close> returns the package of
  a name, or NULL.
\<close>

type_synonym catalog = "string \<Rightarrow> package_t option"

definition dependency_graph_create :: dependency_graph_t where
  "dependency_graph_create = \<lparr>nodes = [], node_count = 0, has_cycles = False\<rparr>"

definition dependency_node_create :: "string \<Rightarrow> dependency_node_t" where
  "dependency_node_create pname =
     \<lparr>package_name = c_strncpy (MAX_NAME - 1) pname, node_dependencies = [],
      visited = False, in_stack = False\<rparr>"

text \<open>\<^verbatim>\<open>dependency_graph_find_node\<close>: the position of the first node with the name.\<close>

fun find_node_index :: "dependency_node_t list \<Rightarrow> string \<Rightarrow> nat option" where
  "find_node_index [] pname = None"
| "find_node_index (x # xs) pname =
     (if package_name x = pname then Some 0 else map_option Suc (find_node_index xs pname))"

definition dependency_graph_find_node :: "dependency_graph_t \<Rightarrow> string \<Rightarrow> nat option" where
  "dependency_graph_find_node graph pname = find_node_index (nodes graph) pname"

text \<open>A new node becomes the head of the list.\<close>

definition dependency_graph_add_package ::
  "dependency_graph_t \<Rightarrow> string \<Rightarrow> int \<times> dependency_graph_t" where
  "dependency_graph_add_package graph pname =
     (if dependency_graph_find_node graph pname \<noteq> None then (TINYPKG_SUCCESS, graph)
      else (TINYPKG_SUCCESS,
            graph\<lparr>nodes := dependency_node_create pname # nodes graph,
                  node_count := node_count graph + 1\<rparr>))"

text \<open>
  \<^verbatim>\<open>dependency_graph_build\<close> walks from the head of the list along the \<^verbatim>\<open>next\<close> pointers.
  The nodes it adds on the way are put in front of the head, behind the cursor, so the
  walk visits the nodes that were in the list at the start. With \<open>k\<close> nodes left to
  visit, the cursor is at position \<open>length - k\<close> of the current list.
\<close>

fun dependency_graph_build_loop :: "catalog \<Rightarrow> nat \<Rightarrow> dependency_graph_t \<Rightarrow> dependency_graph_t" where
  "dependency_graph_build_loop package_load_info 0 graph = graph"
| "dependency_graph_build_loop package_load_info (Suc k) graph =
     (let i = length (nodes graph) - Suc k;
          node = nodes graph ! i
      in if node_dependencies node = []
         then (case package_load_info (package_name node) of
                 None \<Rightarrow> dependency_graph_build_loop package_load_info k graph
               | Some pkg \<Rightarrow>
                   if dependencies pkg \<noteq> []
                   then
                     let g1 = graph\<lparr>nodes := (nodes graph)
                                 [i := node\<lparr>node_dependencies := dependencies pkg\<rparr>]\<rparr>;
                         g2 = foldl (\<lambda>g d. snd (dependency_graph_add_package g d)) g1
                                (dependencies pkg)
                     in dependency_graph_build_loop package_load_info k g2
                   else dependency_graph_build_loop package_load_info k graph)
         else dependency_graph_build_loop package_load_info k graph)"

definition dependency_graph_build :: "catalog \<Rightarrow> dependency_graph_t \<Rightarrow> int \<times> dependency_graph_t" where
  "dependency_graph_build package_load_info graph =
     (TINYPKG_SUCCESS, dependency_graph_build_loop package_load_info (length (nodes graph)) graph)"

subsection \<open>Cycle detection\<close>

text \<open>
  \<^verbatim>\<open>dfs_cycle_check\<close> marks its node and loops over the node's dependencies.
  \<open>dfs_from n ds ns\<close> is that loop for node \<open>n\<close> with the dependencies \<open>ds\<close> still to
  look at, followed by the end of the function, which takes the node off the stack.
\<close>

definition unvisited :: "dependency_node_t list \<Rightarrow> nat" where
  "unvisited ns = length (filter (\<lambda>x. \<not> visited x) ns)"

function dfs_from ::
  "nat \<Rightarrow> string list \<Rightarrow> dependency_node_t list \<Rightarrow> bool \<times> dependency_node_t list" where
  "dfs_from n [] ns = (False, ns[n := (ns ! n)\<lparr>in_stack := False\<rparr>])"
| "dfs_from n (d # ds) ns =
     (case find_node_index ns d of
        None \<Rightarrow> dfs_from n ds ns
      | Some j \<Rightarrow>
          if in_stack (ns ! j) then (True, ns)
          else if \<not> visited (ns ! j)
          then (case dfs_from j (node_dependencies (ns ! j))
                       (ns[j := (ns ! j)\<lparr>visited := True, in_stack := True\<rparr>]) of
                  (True, ns') \<Rightarrow> (True, ns')
                | (False, ns') \<Rightarrow> dfs_from n ds ns')
          else dfs_from n ds ns)"
  by pat_completeness auto

lemma find_node_index_less: "find_node_index ns d = Some j \<Longrightarrow> j < length ns"
  by (induction ns arbitrary: j) (auto split: if_splits)

lemma find_node_index_name: "find_node_index ns d = Some j \<Longrightarrow> package_name (ns ! j) = d"
  by (induction ns arbitrary: j) (auto split: if_splits)

lemma unvisited_update_le:
  "visited v \<or> (n < length ns \<and> \<not> visited (ns ! n)) \<or> n \<ge> length ns
     \<Longrightarrow> unvisited (ns[n := v]) \<le> unvisited ns"
proof (induction ns arbitrary: n)
  case Nil
  then show ?case by (simp add: unvisited_def)
next
  case (Cons a ns)
  then show ?case by (cases n) (auto simp: unvisited_def)
qed

lemma unvisited_mark_less:
  "n < length ns \<Longrightarrow> \<not> visited (ns ! n) \<Longrightarrow> visited v \<Longrightarrow> unvisited (ns[n := v]) < unvisited ns"
proof (induction ns arbitrary: n)
  case Nil
  then show ?case by simp
next
  case (Cons a ns)
  show ?case
  proof (cases n)
    case 0
    with Cons.prems show ?thesis by (simp add: unvisited_def)
  next
    case (Suc m)
    with Cons.prems have "m < length ns" and "\<not> visited (ns ! m)" by simp_all
    from Cons.IH [OF this Cons.prems(3)] Suc show ?thesis by (simp add: unvisited_def)
  qed
qed

lemma unvisited_same_flag:
  "visited v = visited (ns ! n) \<Longrightarrow> unvisited (ns[n := v]) = unvisited ns"
proof (induction ns arbitrary: n)
  case Nil
  then show ?case by simp
next
  case (Cons a ns)
  then show ?case by (cases n) (auto simp: unvisited_def)
qed

lemma dfs_from_unvisited:
  "dfs_from_dom (n, ds, ns) \<Longrightarrow> unvisited (snd (dfs_from n ds ns)) \<le> unvisited ns"
proof (induction n ds ns rule: dfs_from.pinduct)
  case (1 n ns)
  then show ?case by (simp add: dfs_from.psimps unvisited_same_flag)
next
  case (2 n d ds ns)
  show ?case
  proof (cases "find_node_index ns d")
    case None
    with 2 show ?thesis by (simp add: dfs_from.psimps)
  next
    case (Some j)
    note j = find_node_index_less [OF Some]
    show ?thesis
    proof (cases "in_stack (ns ! j)")
      case True
      with 2(1) Some show ?thesis by (simp add: dfs_from.psimps)
    next
      case False
      show ?thesis
      proof (cases "visited (ns ! j)")
        case True
        with 2 Some False show ?thesis by (simp add: dfs_from.psimps)
      next
        case nv: False
        let ?ns1 = "ns[j := (ns ! j)\<lparr>visited := True, in_stack := True\<rparr>]"
        obtain f ns' where r: "dfs_from j (node_dependencies (ns ! j)) ?ns1 = (f, ns')"
          by (cases "dfs_from j (node_dependencies (ns ! j)) ?ns1")
        have a: "unvisited ns' \<le> unvisited ?ns1"
          using 2(3) [OF Some False nv] r by simp
        have b: "unvisited ?ns1 < unvisited ns"
          using j nv by (simp add: unvisited_mark_less)
        show ?thesis
        proof (cases f)
          case True
          with 2(1) Some False nv r a b show ?thesis by (simp add: dfs_from.psimps)
        next
          case ff: False
          have "unvisited (snd (dfs_from n ds ns')) \<le> unvisited ns'"
            using 2(4) [OF Some False nv r [symmetric]] ff by simp
          with 2(1) Some False nv r ff a b show ?thesis by (simp add: dfs_from.psimps)
        qed
      qed
    qed
  qed
qed

termination dfs_from
proof (relation "measures [\<lambda>(n, ds, ns). unvisited ns, \<lambda>(n, ds, ns). length ds]", goal_cases)
  case 1
  then show ?case by simp
next
  case (2 n d ds ns)
  then show ?case by simp
next
  case (3 n d ds ns j)
  then show ?case
    using find_node_index_less [of ns d j] by (simp add: unvisited_mark_less)
next
  case (4 n d ds ns j x ns')
  from 4 have dom: "dfs_from_dom (j, node_dependencies (ns ! j),
      ns[j := (ns ! j)\<lparr>visited := True, in_stack := True\<rparr>])" by simp
  from 4 have res: "ns' = snd (dfs_from j (node_dependencies (ns ! j))
      (ns[j := (ns ! j)\<lparr>visited := True, in_stack := True\<rparr>]))"
    by (metis snd_conv)
  have "unvisited ns' \<le> unvisited (ns[j := (ns ! j)\<lparr>visited := True, in_stack := True\<rparr>])"
    unfolding res using dom by (rule dfs_from_unvisited)
  moreover have "unvisited (ns[j := (ns ! j)\<lparr>visited := True, in_stack := True\<rparr>]) < unvisited ns"
    using 4 find_node_index_less [of ns d j] by (simp add: unvisited_mark_less)
  ultimately show ?case by simp
next
  case (5 n d ds ns j)
  then show ?case by simp
qed

definition dfs_cycle_check :: "nat \<Rightarrow> dependency_node_t list \<Rightarrow> bool \<times> dependency_node_t list" where
  "dfs_cycle_check n ns =
     dfs_from n (node_dependencies (ns ! n)) (ns[n := (ns ! n)\<lparr>visited := True, in_stack := True\<rparr>])"

text \<open>The second loop of \<^verbatim>\<open>dependency_detect_cycles\<close>, over the positions of the list.\<close>

fun detect_cycles_loop :: "nat list \<Rightarrow> dependency_node_t list \<Rightarrow> bool \<times> dependency_node_t list" where
  "detect_cycles_loop [] ns = (False, ns)"
| "detect_cycles_loop (i # is) ns =
     (if \<not> visited (ns ! i)
      then (case dfs_cycle_check i ns of
              (True, ns') \<Rightarrow> (True, ns')
            | (False, ns') \<Rightarrow> detect_cycles_loop is ns')
      else detect_cycles_loop is ns)"

definition dependency_detect_cycles :: "dependency_graph_t \<Rightarrow> int \<times> dependency_graph_t" where
  "dependency_detect_cycles graph =
     (let ns0 = map (\<lambda>x. x\<lparr>visited := False, in_stack := False\<rparr>) (nodes graph);
          (found, ns1) = detect_cycles_loop [0..<length ns0] ns0
      in if found then (TINYPKG_ERROR_DEPENDENCY, graph\<lparr>nodes := ns1, has_cycles := True\<rparr>)
         else (TINYPKG_SUCCESS, graph\<lparr>nodes := ns1\<rparr>))"

subsection \<open>Topological sort\<close>

text \<open>
  The in-degree array has \<^verbatim>\<open>node_count\<close> entries, and the inner loops look for the first
  position \<open>j\<close> below \<^verbatim>\<open>node_count\<close> whose node has the name of the dependency. For
  every dependency of every node the entry of the dependency is incremented.
\<close>

definition in_degree_count :: "dependency_node_t list \<Rightarrow> int list \<Rightarrow> string \<Rightarrow> int list" where
  "in_degree_count ns in_degree d =
     (case find_node_index (take (length in_degree) ns) d of
        None \<Rightarrow> in_degree
      | Some j \<Rightarrow> in_degree[j := in_degree ! j + 1])"

definition calculate_in_degrees :: "dependency_graph_t \<Rightarrow> int list" where
  "calculate_in_degrees graph =
     foldl (\<lambda>in_degree node. foldl (in_degree_count (nodes graph)) in_degree (node_dependencies node))
       (replicate (node_count graph) 0) (nodes graph)"

text \<open>
  Kahn's loop. The queue is the part of the array between \<^verbatim>\<open>queue_start\<close> and
  \<^verbatim>\<open>queue_end\<close>. The node taken from the queue is appended to the result, and the entry
  of each of its dependencies is decremented; a dependency whose entry becomes zero is
  put at the end of the queue.
\<close>

definition in_degree_release ::
  "dependency_node_t list \<Rightarrow> int list \<times> nat list \<Rightarrow> string \<Rightarrow> int list \<times> nat list" where
  "in_degree_release node_array st d =
     (case find_node_index (take (length (fst st)) node_array) d of
        None \<Rightarrow> st
      | Some j \<Rightarrow>
          let in_degree = (fst st)[j := fst st ! j - 1]
          in (in_degree, if in_degree ! j = 0 then snd st @ [j] else snd st))"

definition kahn_measure :: "int list \<times> nat list \<Rightarrow> nat" where
  "kahn_measure st = length (filter (\<lambda>x. 0 < x) (fst st)) + length (snd st)"

lemma positive_entry_counted:
  assumes "j < length xs" and "xs ! j = (1::int)"
  shows "0 < length (filter (\<lambda>x. 0 < x) xs)"
proof -
  from assms(1) have "xs ! j \<in> set xs" by (rule nth_mem)
  moreover from assms(2) have "0 < xs ! j" by simp
  ultimately have "filter (\<lambda>x. 0 < x) xs \<noteq> []" by (auto simp: filter_empty_conv)
  then show ?thesis by simp
qed

lemma positive_update_decrement:
  "j < length xs \<Longrightarrow>
     length (filter (\<lambda>x. 0 < x) (xs[j := xs ! j - 1 :: int]))
       = length (filter (\<lambda>x. 0 < x) xs) - (if xs ! j = 1 then 1 else 0)"
proof (induction xs arbitrary: j)
  case Nil
  then show ?case by simp
next
  case (Cons a xs)
  show ?case
  proof (cases j)
    case 0
    then show ?thesis by auto
  next
    case (Suc m)
    with Cons.prems have m: "m < length xs" by simp
    have "xs ! m = 1 \<Longrightarrow> 0 < length (filter (\<lambda>x. 0 < x) xs)"
      using m by (rule positive_entry_counted)
    with Cons.IH [OF m] Suc show ?thesis by auto
  qed
qed

lemma in_degree_release_measure:
  "kahn_measure (in_degree_release node_array st d) \<le> kahn_measure st"
proof (cases "find_node_index (take (length (fst st)) node_array) d")
  case None
  then show ?thesis by (simp add: in_degree_release_def)
next
  case (Some j)
  from find_node_index_less [OF Some] have j: "j < length (fst st)" by simp
  have "fst st ! j = 1 \<Longrightarrow> 0 < length (filter (\<lambda>x. 0 < x) (fst st))"
    using j by (rule positive_entry_counted)
  then show ?thesis
    using positive_update_decrement [OF j] j
    by (auto simp: in_degree_release_def Some kahn_measure_def Let_def)
qed

lemma foldl_in_degree_release_measure:
  "kahn_measure (foldl (in_degree_release node_array) st ds) \<le> kahn_measure st"
proof (induction ds arbitrary: st)
  case Nil
  then show ?case by simp
next
  case (Cons d ds)
  have "kahn_measure (foldl (in_degree_release node_array) (in_degree_release node_array st d) ds)
          \<le> kahn_measure (in_degree_release node_array st d)"
    by (rule Cons.IH)
  also have "\<dots> \<le> kahn_measure st" by (rule in_degree_release_measure)
  finally show ?case by simp
qed

function kahn_loop ::
  "dependency_node_t list \<Rightarrow> int list \<Rightarrow> nat list \<Rightarrow> string list \<Rightarrow> string list" where
  "kahn_loop node_array in_degree [] result = result"
| "kahn_loop node_array in_degree (current_idx # queue) result =
     (let current = node_array ! current_idx;
          st = foldl (in_degree_release node_array) (in_degree, queue) (node_dependencies current)
      in kahn_loop node_array (fst st) (snd st) (result @ [package_name current]))"
  by pat_completeness auto
termination
proof (relation "measure (\<lambda>(node_array, in_degree, queue, result). kahn_measure (in_degree, queue))",
    goal_cases)
  case 1
  then show ?case by simp
next
  case (2 node_array in_degree current_idx queue result current st)
  have "kahn_measure st \<le> kahn_measure (in_degree, queue)"
    unfolding 2 by (rule foldl_in_degree_release_measure)
  then show ?case by (simp add: kahn_measure_def)
qed

text \<open>
  \<^verbatim>\<open>dependency_graph_topological_sort\<close>: the result code with the sorted names; no names
  are returned unless every node was emitted.
\<close>

definition dependency_graph_topological_sort :: "dependency_graph_t \<Rightarrow> int \<times> string list" where
  "dependency_graph_topological_sort graph =
     (if node_count graph = 0 then (TINYPKG_SUCCESS, [])
      else
        let in_degree = calculate_in_degrees graph;
            node_array = nodes graph;
            queue = filter (\<lambda>i. in_degree ! i = 0) [0..<node_count graph];
            result = kahn_loop node_array in_degree queue []
        in if length result \<noteq> node_count graph then (TINYPKG_ERROR_DEPENDENCY, [])
           else (TINYPKG_SUCCESS, result))"

subsection \<open>\<^verbatim>\<open>dependency_resolve\<close>\<close>

definition dependency_resolve :: "catalog \<Rightarrow> string \<Rightarrow> int \<times> string list" where
  "dependency_resolve package_load_info pname =
     (let graph = dependency_graph_create;
          (r1, g1) = dependency_graph_add_package graph pname
      in if r1 \<noteq> TINYPKG_SUCCESS then (r1, [])
         else
           let (r2, g2) = dependency_graph_build package_load_info g1
           in if r2 \<noteq> TINYPKG_SUCCESS then (r2, [])
              else
                let (r3, g3) = dependency_detect_cycles g2
                in if r3 \<noteq> TINYPKG_SUCCESS then (TINYPKG_ERROR_DEPENDENCY, [])
                   else dependency_graph_topological_sort g3)"

text \<open>
  \<^verbatim>\<open>dependency_find_dependents\<close> over the rows of the installed-packages database, given
  by their names in list order: the names of the rows whose package definition lists the
  package among its dependencies.
\<close>

definition find_dependents_of :: "catalog \<Rightarrow> string list \<Rightarrow> string \<Rightarrow> string list" where
  "find_dependents_of package_load_info entry_names pname =
     filter (\<lambda>n. case package_load_info n of
                    None \<Rightarrow> False
                  | Some pkg \<Rightarrow> pname \<in> set (dependencies pkg)) entry_names"


section \<open>Properties of the dependency resolver\<close>

definition pkg_with_deps :: "string \<Rightarrow> string list \<Rightarrow> package_t" where
  "pkg_with_deps n ds = example_pkg\<lparr>name := n, dependencies := ds\<rparr>"

text \<open>A catalog in which \<^verbatim>\<open>app\<close> depends on \<^verbatim>\<open>lib\<close>, and \<^verbatim>\<open>lib\<close> on \<^verbatim>\<open>core\<close>.\<close>

definition chain_catalog :: catalog where
  "chain_catalog n =
     (if n = ''app'' then Some (pkg_with_deps ''app'' [''lib''])
      else if n = ''lib'' then Some (pkg_with_deps ''lib'' [''core''])
      else if n = ''core'' then Some (pkg_with_deps ''core'' [])
      else None)"

text \<open>A catalog in which \<^verbatim>\<open>ping\<close> depends on \<^verbatim>\<open>pong\<close> and \<^verbatim>\<open>pong\<close> on \<^verbatim>\<open>ping\<close>.\<close>

definition cycle_catalog :: catalog where
  "cycle_catalog n =
     (if n = ''ping'' then Some (pkg_with_deps ''ping'' [''pong''])
      else if n = ''pong'' then Some (pkg_with_deps ''pong'' [''ping''])
      else None)"

definition self_catalog :: catalog where
  "self_catalog n = (if n = ''loop'' then Some (pkg_with_deps ''loop'' [''loop'']) else None)"

lemmas resolver_defs = dependency_resolve_def dependency_graph_create_def
  dependency_graph_add_package_def dependency_graph_find_node_def dependency_node_create_def
  dependency_graph_build_def dependency_detect_cycles_def dfs_cycle_check_def
  dependency_graph_topological_sort_def calculate_in_degrees_def in_degree_count_def
  in_degree_release_def pkg_with_deps_def example_pkg_def c_strncpy_short

lemma chain_graph:
  "dependency_graph_build chain_catalog
     (snd (dependency_graph_add_package dependency_graph_create ''app''))
   = (TINYPKG_SUCCESS,
      \<lparr>nodes = [\<lparr>package_name = ''lib'', node_dependencies = [], visited = False, in_stack = False\<rparr>,
                \<lparr>package_name = ''app'', node_dependencies = [''lib''], visited = False,
                 in_stack = False\<rparr>],
       node_count = 2, has_cycles = False\<rparr>)"
  by (simp add: resolver_defs chain_catalog_def Let_def)

text \<open>
  C1. For \<^verbatim>\<open>app\<close>, which depends on \<^verbatim>\<open>lib\<close>, the resolver succeeds and returns \<^verbatim>\<open>app\<close>
  before \<^verbatim>\<open>lib\<close>: the dependency comes after the package that declares it, and the last
  name is not the requested one. The dependency \<^verbatim>\<open>core\<close> of \<^verbatim>\<open>lib\<close> is not in the list.
\<close>

theorem dependency_resolve_dependent_first:
  "dependency_resolve chain_catalog ''app'' = (TINYPKG_SUCCESS, [''app'', ''lib''])"
  by (simp add: resolver_defs chain_catalog_def Let_def)

text \<open>
  C5. For \<^verbatim>\<open>ping\<close> and \<^verbatim>\<open>pong\<close>, which depend on each other, the resolver reports no
  cycle: it succeeds and returns an order.
\<close>

theorem dependency_resolve_two_cycle_accepted:
  "dependency_resolve cycle_catalog ''ping'' = (TINYPKG_SUCCESS, [''ping'', ''pong''])"
  by (simp add: resolver_defs cycle_catalog_def Let_def)

text \<open>A package that depends on itself is rejected by the cycle check.\<close>

lemma dependency_resolve_self_cycle:
  "dependency_resolve self_catalog ''loop'' = (TINYPKG_ERROR_DEPENDENCY, [])"
  by (simp add: resolver_defs self_catalog_def Let_def)


section \<open>The installed-packages database (\<^verbatim>\<open>package.c\<close>)\<close>

text \<open>
  A row of the database, \<^verbatim>\<open>package_db_entry_t\<close>. The fields are named after the
  source's \<^verbatim>\<open>name\<close>, \<^verbatim>\<open>version\<close>, \<^verbatim>\<open>description\<close>, \<^verbatim>\<open>install_time\<close>,
  \<^verbatim>\<open>installed_size\<close> and \<^verbatim>\<open>state\<close>.
\<close>

record package_db_entry_t =
  entry_name :: string
  entry_version :: string
  entry_description :: string
  entry_install_time :: int
  entry_installed_size :: nat
  entry_state :: int

text \<open>
  The state of the database: the linked list from \<^verbatim>\<open>package_db_head\<close>, the flag
  \<^verbatim>\<open>package_db_loaded\<close>, the content of the file \<^verbatim>\<open>installed.txt\<close> under \<^verbatim>\<open>LIB_DIR\<close>
  (nothing when the file does not exist), whether the file can be opened for writing,
  and the paths given to \<^verbatim>\<open>unlink\<close> so far.
\<close>

record db_state =
  package_db_head :: "package_db_entry_t list"
  package_db_loaded :: bool
  installed_txt :: "string option"
  installed_txt_writable :: bool
  unlinked :: "string list"

subsection \<open>Saving\<close>

definition db_file_header :: string where
  "db_file_header =
     ''# TinyPkg Installed Packages Database'' @ [CHR 0x0A]
     @ ''# Format: name'' @ [CHR 0x09] @ ''version'' @ [CHR 0x09] @ ''description'' @ [CHR 0x09]
     @ ''install_time'' @ [CHR 0x09] @ ''installed_size'' @ [CHR 0x09] @ ''state'' @ [CHR 0x0A]"

text \<open>One row, written by \<^verbatim>\<open>fprintf(fp, "%s\t%s\t%s\t%ld\t%zu\t%d\n", ...)\<close>.\<close>

definition entry_line :: "package_db_entry_t \<Rightarrow> string" where
  "entry_line e =
     entry_name e @ [CHR 0x09] @ entry_version e @ [CHR 0x09] @ entry_description e @ [CHR 0x09]
     @ int_to_dec (entry_install_time e) @ [CHR 0x09] @ nat_to_dec (entry_installed_size e)
     @ [CHR 0x09] @ int_to_dec (entry_state e) @ [CHR 0x0A]"

definition db_file_text :: "package_db_entry_t list \<Rightarrow> string" where
  "db_file_text entries = db_file_header @ concat (map entry_line entries)"

definition package_db_save :: "db_state \<Rightarrow> int \<times> db_state" where
  "package_db_save s =
     (if \<not> installed_txt_writable s then (TINYPKG_ERROR_FILE, s)
      else (TINYPKG_SUCCESS, s\<lparr>installed_txt := Some (db_file_text (package_db_head s))\<rparr>))"

subsection \<open>Loading\<close>

text \<open>
  \<^verbatim>\<open>fgets(line, n + 1, fp)\<close> reads at most \<open>n\<close> characters and stops after a newline.
  The file is read line by line until nothing is left.
\<close>

fun fgets :: "nat \<Rightarrow> string \<Rightarrow> string \<times> string" where
  "fgets 0 s = ([], s)"
| "fgets (Suc n) [] = ([], [])"
| "fgets (Suc n) (c # cs) =
     (if c = CHR 0x0A then ([c], cs) else (c # fst (fgets n cs), snd (fgets n cs)))"

lemma fgets_rest_shorter: "length (snd (fgets n s)) \<le> length s"
  by (induction n s rule: fgets.induct) auto

lemma fgets_consumes: "0 < n \<Longrightarrow> s \<noteq> [] \<Longrightarrow> length (snd (fgets n s)) < length s"
proof (cases n)
  case 0
  then show "0 < n \<Longrightarrow> ?thesis" by simp
next
  case (Suc m)
  assume "s \<noteq> []"
  then obtain c cs where s: "s = c # cs" by (cases s) auto
  show ?thesis
    using fgets_rest_shorter [of m cs] by (simp add: Suc s le_imp_less_Suc)
qed

function read_lines :: "string \<Rightarrow> string list" where
  "read_lines [] = []"
| "read_lines (c # cs) = fst (fgets 1023 (c # cs)) # read_lines (snd (fgets 1023 (c # cs)))"
  by pat_completeness auto
termination
proof (relation "measure length", goal_cases)
  case 1
  then show ?case by simp
next
  case (2 c cs)
  show ?case
    using fgets_consumes [of 1023 "c # cs"] by (simp del: fgets.simps)
qed

text \<open>
  The conversions of \<^verbatim>\<open>sscanf\<close>. White space is what \<^verbatim>\<open>isspace\<close> accepts. A white-space
  directive of the format skips any white space of the input. \<^verbatim>\<open>%Ns\<close> skips white space
  and takes up to \<open>N\<close> characters that are not white space; \<^verbatim>\<open>%N[^\t]\<close> takes up to
  \<open>N\<close> characters other than a tab without skipping anything; both fail when they get no
  character.
\<close>

definition c_isspace :: "char \<Rightarrow> bool" where
  "c_isspace c = (let n = (of_char c :: nat) in n = 32 \<or> (9 \<le> n \<and> n \<le> 13))"

definition c_isdigit :: "char \<Rightarrow> bool" where
  "c_isdigit c = (let n = (of_char c :: nat) in 48 \<le> n \<and> n \<le> 57)"

definition scan_string :: "nat \<Rightarrow> string \<Rightarrow> (string \<times> string) option" where
  "scan_string width s =
     (let s1 = dropWhile c_isspace s;
          tok = take width (takeWhile (\<lambda>c. \<not> c_isspace c) s1)
      in if tok = [] then None else Some (tok, drop (length tok) s1))"

definition scan_not_tab :: "nat \<Rightarrow> string \<Rightarrow> (string \<times> string) option" where
  "scan_not_tab width s =
     (let tok = take width (takeWhile (\<lambda>c. c \<noteq> CHR 0x09) s)
      in if tok = [] then None else Some (tok, drop (length tok) s))"

text \<open>
  The numeric conversions skip white space, take an optional sign and then decimal
  digits, and fail without a digit. As in the C library of the platform, \<^verbatim>\<open>%ld\<close> gives
  the value limited to the range of \<^verbatim>\<open>long\<close>, \<^verbatim>\<open>%zu\<close> the value limited to the largest
  \<^verbatim>\<open>size_t\<close> and negated modulo \<open>2^64\<close> after a minus sign, and \<^verbatim>\<open>%d\<close> the \<^verbatim>\<open>long\<close>
  value cut to 32 bits.
\<close>

definition digit_val :: "char \<Rightarrow> nat" where
  "digit_val c = of_char c - 48"

fun dec_value :: "nat \<Rightarrow> string \<Rightarrow> nat" where
  "dec_value acc [] = acc"
| "dec_value acc (c # cs) = dec_value (10 * acc + digit_val c) cs"

definition scan_integer :: "string \<Rightarrow> (bool \<times> nat \<times> string) option" where
  "scan_integer s =
     (let s1 = dropWhile c_isspace s;
          neg = (s1 \<noteq> [] \<and> hd s1 = CHR ''-'');
          s2 = (if s1 \<noteq> [] \<and> (hd s1 = CHR ''-'' \<or> hd s1 = CHR ''+'') then tl s1 else s1);
          ds = takeWhile c_isdigit s2
      in if ds = [] then None else Some (neg, dec_value 0 ds, drop (length ds) s2))"

definition clamp_long :: "int \<Rightarrow> int" where
  "clamp_long v = max (- (2 ^ 63)) (min (2 ^ 63 - 1) v)"

definition scan_ld :: "string \<Rightarrow> (int \<times> string) option" where
  "scan_ld s =
     (case scan_integer s of
        None \<Rightarrow> None
      | Some (neg, v, rest) \<Rightarrow> Some (clamp_long (if neg then - int v else int v), rest))"

definition scan_zu :: "string \<Rightarrow> (nat \<times> string) option" where
  "scan_zu s =
     (case scan_integer s of
        None \<Rightarrow> None
      | Some (neg, v, rest) \<Rightarrow>
          Some (if v \<ge> 2 ^ 64 then 2 ^ 64 - 1 else if neg then (2 ^ 64 - v) mod 2 ^ 64 else v, rest))"

definition scan_d :: "string \<Rightarrow> (int \<times> string) option" where
  "scan_d s =
     (case scan_ld s of
        None \<Rightarrow> None
      | Some (v, rest) \<Rightarrow> Some ((v + 2 ^ 31) mod 2 ^ 32 - 2 ^ 31, rest))"

text \<open>
  \<^verbatim>\<open>sscanf(line, "%255s\t%63s\t%511[^\t]\t%ld\t%zu\t%d", ...)\<close> into a zeroed row, and the
  test \<^verbatim>\<open>fields >= 3\<close>: the row is kept when the first three conversions succeed, with
  zero in the fields that were not converted.
\<close>

definition parse_entry_line :: "string \<Rightarrow> package_db_entry_t option" where
  "parse_entry_line line =
     (case scan_string 255 line of
        None \<Rightarrow> None
      | Some (n, r1) \<Rightarrow>
          (case scan_string 63 (dropWhile c_isspace r1) of
             None \<Rightarrow> None
           | Some (v, r2) \<Rightarrow>
               (case scan_not_tab 511 (dropWhile c_isspace r2) of
                  None \<Rightarrow> None
                | Some (d, r3) \<Rightarrow>
                    let e = \<lparr>entry_name = n, entry_version = v, entry_description = d,
                             entry_install_time = 0, entry_installed_size = 0, entry_state = 0\<rparr>
                    in (case scan_ld (dropWhile c_isspace r3) of
                          None \<Rightarrow> Some e
                        | Some (t, r4) \<Rightarrow>
                            (case scan_zu (dropWhile c_isspace r4) of
                               None \<Rightarrow> Some (e\<lparr>entry_install_time := t\<rparr>)
                             | Some (sz, r5) \<Rightarrow>
                                 (case scan_d (dropWhile c_isspace r5) of
                                    None \<Rightarrow> Some (e\<lparr>entry_install_time := t,
                                                   entry_installed_size := sz\<rparr>)
                                  | Some (st, r6) \<Rightarrow>
                                      Some (e\<lparr>entry_install_time := t, entry_installed_size := sz,
                                             entry_state := st\<rparr>)))))))"

text \<open>
  One turn of the loop of \<^verbatim>\<open>package_db_load\<close>: comment lines and empty lines are
  skipped, an accepted row becomes the head of the list, any other line is dropped.
\<close>

definition load_line :: "package_db_entry_t list \<Rightarrow> string \<Rightarrow> package_db_entry_t list" where
  "load_line head line =
     (if line \<noteq> [] \<and> (hd line = CHR ''#'' \<or> hd line = CHR 0x0A) then head
      else (case parse_entry_line line of None \<Rightarrow> head | Some e \<Rightarrow> e # head))"

definition package_db_load :: "db_state \<Rightarrow> int \<times> db_state" where
  "package_db_load s =
     (if package_db_loaded s then (TINYPKG_SUCCESS, s)
      else (case installed_txt s of
              None \<Rightarrow> (TINYPKG_SUCCESS, s\<lparr>package_db_loaded := True\<rparr>)
            | Some txt \<Rightarrow>
                (TINYPKG_SUCCESS,
                 s\<lparr>package_db_head := foldl load_line (package_db_head s) (read_lines txt),
                   package_db_loaded := True\<rparr>)))"

subsection \<open>Rows\<close>

fun package_db_find :: "string \<Rightarrow> package_db_entry_t list \<Rightarrow> package_db_entry_t option" where
  "package_db_find pname [] = None"
| "package_db_find pname (e # es) = (if entry_name e = pname then Some e else package_db_find pname es)"

text \<open>The list without its first row of the name.\<close>

fun unlink_first :: "string \<Rightarrow> package_db_entry_t list \<Rightarrow> package_db_entry_t list" where
  "unlink_first pname [] = []"
| "unlink_first pname (e # es) = (if entry_name e = pname then es else e # unlink_first pname es)"

definition package_db_remove :: "string \<Rightarrow> db_state \<Rightarrow> int \<times> db_state" where
  "package_db_remove pname s =
     (if package_db_find pname (package_db_head s) \<noteq> None
      then package_db_save (s\<lparr>package_db_head := unlink_first pname (package_db_head s)\<rparr>)
      else (TINYPKG_SUCCESS, s))"

definition package_db_add :: "package_t \<Rightarrow> db_state \<Rightarrow> int \<times> db_state" where
  "package_db_add pkg s =
     (let (_, s1) = package_db_remove (name pkg) s;
          entry = \<lparr>entry_name = c_strncpy (MAX_NAME - 1) (name pkg),
                   entry_version = c_strncpy (MAX_VERSION - 1) (version pkg),
                   entry_description = c_strncpy (MAX_DESCRIPTION - 1) (description pkg),
                   entry_install_time = install_time pkg,
                   entry_installed_size = size_estimate pkg,
                   entry_state = PKG_STATE_INSTALLED\<rparr>
      in package_db_save (s1\<lparr>package_db_head := entry # package_db_head s1\<rparr>))"

text \<open>The list with the state of its first row of the name changed.\<close>

fun set_first_state :: "string \<Rightarrow> int \<Rightarrow> package_db_entry_t list \<Rightarrow> package_db_entry_t list" where
  "set_first_state pname st [] = []"
| "set_first_state pname st (e # es) =
     (if entry_name e = pname then e\<lparr>entry_state := st\<rparr> # es else e # set_first_state pname st es)"

definition package_set_state :: "string \<Rightarrow> int \<Rightarrow> db_state \<Rightarrow> int \<times> db_state" where
  "package_set_state pname st s =
     (if package_db_find pname (package_db_head s) \<noteq> None
      then package_db_save (s\<lparr>package_db_head := set_first_state pname st (package_db_head s)\<rparr>)
      else (TINYPKG_SUCCESS, s))"

definition package_is_installed :: "string \<Rightarrow> db_state \<Rightarrow> bool \<times> db_state" where
  "package_is_installed pname s =
     (let (r, s1) = package_db_load s
      in if r \<noteq> TINYPKG_SUCCESS then (False, s1)
         else (package_db_find pname (package_db_head s1) \<noteq> None, s1))"

text \<open>
  Modelled from the spec: \<^verbatim>\<open>package_db_get_all\<close> is declared in \<^verbatim>\<open>package.h\<close> and has no
  definition in the sources; the specification's \<^verbatim>\<open>all()\<close> returns the ordered sequence
  of all rows.
\<close>

definition package_db_get_all :: "db_state \<Rightarrow> package_db_entry_t list" where
  "package_db_get_all s = package_db_head s"


subsection \<open>Dependents and removal\<close>

text \<open>
  \<^verbatim>\<open>dependency_find_dependents\<close>: after loading the database, the names of the rows
  whose package definition has the package among its dependencies, in the order of the
  rows.
\<close>

definition dependency_find_dependents ::
  "catalog \<Rightarrow> string \<Rightarrow> db_state \<Rightarrow> (int \<times> string list) \<times> db_state" where
  "dependency_find_dependents package_load_info pname s =
     (let (r, s1) = package_db_load s
      in if r \<noteq> TINYPKG_SUCCESS then ((TINYPKG_ERROR, []), s1)
         else ((TINYPKG_SUCCESS,
                find_dependents_of package_load_info (map entry_name (package_db_get_all s1)) pname),
               s1))"

text \<open>
  \<^verbatim>\<open>package_remove\<close>. \<^verbatim>\<open>package_get_file_list\<close> is declared in \<^verbatim>\<open>package.h\<close> and has no
  definition in the sources; it is the parameter \<open>file_list\<close>, which gives the files of
  a package or nothing. The files are unlinked from the last to the first.
\<close>

definition package_remove_files ::
  "(string \<Rightarrow> string list option) \<Rightarrow> string \<Rightarrow> db_state \<Rightarrow> int \<times> db_state" where
  "package_remove_files file_list pname s =
     (let s1 = (case file_list pname of
                  None \<Rightarrow> s
                | Some files \<Rightarrow> s\<lparr>unlinked := unlinked s @ rev files\<rparr>);
          (_, s2) = package_db_remove pname s1
      in (TINYPKG_SUCCESS, s2))"

definition package_remove ::
  "catalog \<Rightarrow> config_t \<Rightarrow> (string \<Rightarrow> string list option) \<Rightarrow> string \<Rightarrow> db_state
     \<Rightarrow> int \<times> db_state" where
  "package_remove package_load_info cfg file_list pname s =
     (let (installed, s1) = package_is_installed pname s
      in if \<not> installed then (TINYPKG_SUCCESS, s1)
         else if package_db_find pname (package_db_head s1) = None then (TINYPKG_ERROR, s1)
         else if \<not> force_mode cfg
         then
           let ((result, dependents), s2) = dependency_find_dependents package_load_info pname s1
           in if result = TINYPKG_SUCCESS \<and> length dependents > 0
              then (TINYPKG_ERROR_DEPENDENCY, s2)
              else package_remove_files file_list pname s2
         else package_remove_files file_list pname s1)"


section \<open>Reading back what was written\<close>

subsection \<open>Decimal numbers\<close>

lemma digit_char_facts:
  assumes "d < 10"
  shows "digit_val (digit_char d) = d" and "c_isdigit (digit_char d)"
    and "\<not> c_isspace (digit_char d)" and "digit_char d \<noteq> CHR ''-''" and "digit_char d \<noteq> CHR ''+''"
    and "digit_char d \<noteq> CHR 0x09" and "digit_char d \<noteq> CHR 0x0A"
proof -
  from assms have "d = 0 \<or> d = 1 \<or> d = 2 \<or> d = 3 \<or> d = 4 \<or> d = 5 \<or> d = 6
      \<or> d = 7 \<or> d = 8 \<or> d = 9" by arith
  then have "digit_val (digit_char d) = d \<and> c_isdigit (digit_char d) \<and> \<not> c_isspace (digit_char d)
      \<and> digit_char d \<noteq> CHR ''-'' \<and> digit_char d \<noteq> CHR ''+''
      \<and> digit_char d \<noteq> CHR 0x09 \<and> digit_char d \<noteq> CHR 0x0A"
    by (elim disjE) (simp_all add: digit_char_def digit_val_def c_isdigit_def c_isspace_def)
  then show "digit_val (digit_char d) = d" and "c_isdigit (digit_char d)"
    and "\<not> c_isspace (digit_char d)" and "digit_char d \<noteq> CHR ''-''" and "digit_char d \<noteq> CHR ''+''"
    and "digit_char d \<noteq> CHR 0x09" and "digit_char d \<noteq> CHR 0x0A"
    by simp_all
qed

lemma nat_to_dec_nonempty: "nat_to_dec n \<noteq> []"
  by (subst nat_to_dec.simps) simp

lemma nat_to_dec_digits: "list_all c_isdigit (nat_to_dec n)"
proof (induction n rule: nat_to_dec.induct)
  case (1 n)
  show ?case
  proof (cases "n < 10")
    case True
    then show ?thesis by (subst nat_to_dec.simps) (simp add: digit_char_facts)
  next
    case False
    with 1 show ?thesis by (subst nat_to_dec.simps) (simp add: digit_char_facts)
  qed
qed

lemma dec_value_append: "dec_value acc (xs @ ys) = dec_value (dec_value acc xs) ys"
  by (induction xs arbitrary: acc) simp_all

lemma dec_value_nat_to_dec: "dec_value 0 (nat_to_dec n) = n"
proof (induction n rule: nat_to_dec.induct)
  case (1 n)
  show ?case
  proof (cases "n < 10")
    case True
    then show ?thesis by (subst nat_to_dec.simps) (simp add: digit_char_facts)
  next
    case False
    with 1 have "dec_value 0 (nat_to_dec (n div 10)) = n div 10" by simp
    with False show ?thesis
      by (subst nat_to_dec.simps) (simp add: dec_value_append digit_char_facts)
  qed
qed

lemma nat_to_dec_length: "0 < k \<Longrightarrow> n < 10 ^ k \<Longrightarrow> length (nat_to_dec n) \<le> k"
proof (induction n arbitrary: k rule: nat_to_dec.induct)
  case (1 n)
  show ?case
  proof (cases "n < 10")
    case True
    with 1(2) show ?thesis by (subst nat_to_dec.simps) simp
  next
    case False
    from 1(2) obtain k' where k: "k = Suc k'" by (cases k) auto
    from False 1(3) k have "0 < k'" by (cases k') auto
    moreover from 1(3) k have "n div 10 < 10 ^ k'"
      by (simp add: less_mult_imp_div_less mult.commute)
    ultimately have "length (nat_to_dec (n div 10)) \<le> k'" using 1(1) False by simp
    with False k show ?thesis by (subst nat_to_dec.simps) simp
  qed
qed

lemma hd_nat_to_dec: "c_isdigit (hd (nat_to_dec n))"
  using nat_to_dec_digits [of n] nat_to_dec_nonempty [of n]
  by (cases "nat_to_dec n") simp_all

lemma digit_not_space: "c_isdigit c \<Longrightarrow> \<not> c_isspace c"
  by (auto simp: c_isdigit_def c_isspace_def Let_def)

lemma digit_not_sign: "c_isdigit c \<Longrightarrow> c \<noteq> CHR ''-'' \<and> c \<noteq> CHR ''+''"
  by (auto simp: c_isdigit_def)

lemma takeWhile_all_then_stop:
  "list_all P xs \<Longrightarrow> \<not> P c \<Longrightarrow> takeWhile P (xs @ c # rest) = xs"
  by (induction xs) simp_all

lemma dropWhile_none_at_head: "xs \<noteq> [] \<Longrightarrow> \<not> P (hd xs) \<Longrightarrow> dropWhile P (xs @ ys) = xs @ ys"
  by (cases xs) simp_all

text \<open>A written number, followed by a character that is no digit, is read back.\<close>

lemma scan_integer_nat:
  assumes "\<not> c_isdigit c"
  shows "scan_integer (nat_to_dec n @ c # rest) = Some (False, n, c # rest)"
proof -
  let ?ds = "nat_to_dec n"
  have hd: "c_isdigit (hd ?ds)" by (rule hd_nat_to_dec)
  have ne: "?ds \<noteq> []" by (rule nat_to_dec_nonempty)
  have s1: "dropWhile c_isspace (?ds @ c # rest) = ?ds @ c # rest"
    using ne hd by (simp add: dropWhile_none_at_head digit_not_space)
  have hd2: "hd (?ds @ c # rest) = hd ?ds" using ne by simp
  have tw: "takeWhile c_isdigit (?ds @ c # rest) = ?ds"
    using assms by (simp add: takeWhile_all_then_stop nat_to_dec_digits)
  show ?thesis
    unfolding scan_integer_def Let_def s1 hd2
    using ne hd digit_not_sign [OF hd] by (simp add: tw dec_value_nat_to_dec)
qed

lemma scan_integer_int:
  assumes "\<not> c_isdigit c"
  shows "scan_integer (int_to_dec i @ c # rest) = Some (i < 0, nat \<bar>i\<bar>, c # rest)"
proof (cases "i < 0")
  case False
  then show ?thesis using scan_integer_nat [OF assms, of "nat i" rest] by (simp add: int_to_dec_def)
next
  case True
  let ?ds = "nat_to_dec (nat (- i))"
  have ne: "?ds \<noteq> []" by (rule nat_to_dec_nonempty)
  have tw: "takeWhile c_isdigit (?ds @ c # rest) = ?ds"
    using assms by (simp add: takeWhile_all_then_stop nat_to_dec_digits)
  have "\<not> c_isspace CHR ''-''" by (simp add: c_isspace_def)
  then show ?thesis
    using True ne
    by (simp add: scan_integer_def int_to_dec_def Let_def tw dec_value_nat_to_dec)
qed

lemma scan_ld_written:
  assumes "\<not> c_isdigit c" and "- (2 ^ 63) \<le> i" and "i < 2 ^ 63"
  shows "scan_ld (int_to_dec i @ c # rest) = Some (i, c # rest)"
  using assms by (simp add: scan_ld_def scan_integer_int clamp_long_def)

lemma scan_zu_written:
  assumes "\<not> c_isdigit c" and "n < 2 ^ 64"
  shows "scan_zu (nat_to_dec n @ c # rest) = Some (n, c # rest)"
  using assms by (simp add: scan_zu_def scan_integer_nat)

lemma scan_d_written:
  assumes "\<not> c_isdigit c" and "- (2 ^ 31) \<le> i" and "i < 2 ^ 31"
  shows "scan_d (int_to_dec i @ c # rest) = Some (i, c # rest)"
proof -
  from assms have "scan_ld (int_to_dec i @ c # rest) = Some (i, c # rest)"
    by (intro scan_ld_written) simp_all
  moreover from assms have "(i + 2 ^ 31) mod 2 ^ 32 = i + 2 ^ 31"
    by (intro mod_pos_pos_trivial) simp_all
  ultimately show ?thesis by (simp add: scan_d_def)
qed

subsection \<open>Rows that the file format can hold\<close>

text \<open>
  A name or version that \<^verbatim>\<open>%Ns\<close> reads back: not empty, within the width, without
  white space. A row that \<^verbatim>\<open>package_db_load\<close> reads back: such a name, not starting
  with the comment sign, such a version, a description that is not empty, within its
  width, without tab or newline and not starting with white space, and numbers within
  the ranges of \<^verbatim>\<open>long\<close>, \<^verbatim>\<open>size_t\<close> and \<^verbatim>\<open>int\<close>.
\<close>

definition token_ok :: "nat \<Rightarrow> string \<Rightarrow> bool" where
  "token_ok width s = (s \<noteq> [] \<and> length s \<le> width \<and> list_all (\<lambda>c. \<not> c_isspace c) s)"

definition storable_entry :: "package_db_entry_t \<Rightarrow> bool" where
  "storable_entry e =
     (token_ok 255 (entry_name e) \<and> hd (entry_name e) \<noteq> CHR ''#''
      \<and> token_ok 63 (entry_version e)
      \<and> entry_description e \<noteq> [] \<and> length (entry_description e) \<le> 511
      \<and> list_all (\<lambda>c. c \<noteq> CHR 0x09 \<and> c \<noteq> CHR 0x0A) (entry_description e)
      \<and> \<not> c_isspace (hd (entry_description e))
      \<and> - (2 ^ 63) \<le> entry_install_time e \<and> entry_install_time e < 2 ^ 63
      \<and> entry_installed_size e < 2 ^ 64
      \<and> - (2 ^ 31) \<le> entry_state e \<and> entry_state e < 2 ^ 31)"

lemma isspace_tab_newline: "c_isspace CHR 0x09" "c_isspace CHR 0x0A"
  by (simp_all add: c_isspace_def)

lemma not_digit_tab_newline: "\<not> c_isdigit CHR 0x09" "\<not> c_isdigit CHR 0x0A"
  by (simp_all add: c_isdigit_def)

lemma token_ok_hd: "token_ok w s \<Longrightarrow> \<not> c_isspace (hd s)"
  by (cases s) (simp_all add: token_ok_def)

lemma scan_string_token:
  assumes "token_ok w tok" and "c_isspace c"
  shows "scan_string w (tok @ c # rest) = Some (tok, c # rest)"
proof -
  from assms(1) have ne: "tok \<noteq> []" and len: "length tok \<le> w"
    and all: "list_all (\<lambda>c. \<not> c_isspace c) tok"
    by (simp_all add: token_ok_def)
  have s1: "dropWhile c_isspace (tok @ c # rest) = tok @ c # rest"
    using ne token_ok_hd [OF assms(1)] by (simp add: dropWhile_none_at_head)
  have tw: "takeWhile (\<lambda>c. \<not> c_isspace c) (tok @ c # rest) = tok"
    using all assms(2) by (simp add: takeWhile_all_then_stop)
  show ?thesis
    unfolding scan_string_def Let_def s1 tw using ne len by simp
qed

lemma scan_not_tab_written:
  assumes "d \<noteq> []" and "length d \<le> w" and "list_all (\<lambda>c. c \<noteq> CHR 0x09) d"
  shows "scan_not_tab w (d @ CHR 0x09 # rest) = Some (d, CHR 0x09 # rest)"
proof -
  have tw: "takeWhile (\<lambda>c. c \<noteq> CHR 0x09) (d @ CHR 0x09 # rest) = d"
    using assms(3) by (simp add: takeWhile_all_then_stop)
  show ?thesis
    unfolding scan_not_tab_def Let_def tw using assms(1,2) by simp
qed

lemma skip_tab_before:
  "xs \<noteq> [] \<Longrightarrow> \<not> c_isspace (hd xs) \<Longrightarrow> dropWhile c_isspace (CHR 0x09 # xs @ ys) = xs @ ys"
  by (cases xs) (simp_all add: isspace_tab_newline)

lemma int_to_dec_nonempty: "int_to_dec i \<noteq> []"
  by (simp add: int_to_dec_def nat_to_dec_nonempty)

lemma int_to_dec_hd: "\<not> c_isspace (hd (int_to_dec i))"
proof (cases "i < 0")
  case True
  then show ?thesis by (simp add: int_to_dec_def c_isspace_def)
next
  case False
  then show ?thesis using digit_not_space [OF hd_nat_to_dec [of "nat i"]] by (simp add: int_to_dec_def)
qed

lemma nat_to_dec_hd: "\<not> c_isspace (hd (nat_to_dec n))"
  using hd_nat_to_dec [of n] by (simp add: digit_not_space)

text \<open>A written row is read back as it was.\<close>

lemma parse_entry_line_written:
  assumes "storable_entry e"
  shows "parse_entry_line (entry_line e) = Some e"
proof -
  let ?t = "CHR 0x09"
  let ?r5 = "int_to_dec (entry_state e) @ [CHR 0x0A]"
  let ?r4 = "nat_to_dec (entry_installed_size e) @ ?t # ?r5"
  let ?r3 = "int_to_dec (entry_install_time e) @ ?t # ?r4"
  let ?r2 = "entry_description e @ ?t # ?r3"
  let ?r1 = "entry_version e @ ?t # ?r2"
  from assms have n: "token_ok 255 (entry_name e)" and v: "token_ok 63 (entry_version e)"
    and d: "entry_description e \<noteq> []" "length (entry_description e) \<le> 511"
      "list_all (\<lambda>c. c \<noteq> CHR 0x09) (entry_description e)" "\<not> c_isspace (hd (entry_description e))"
    and t: "- (2 ^ 63) \<le> entry_install_time e" "entry_install_time e < 2 ^ 63"
    and sz: "entry_installed_size e < 2 ^ 64"
    and st: "- (2 ^ 31) \<le> entry_state e" "entry_state e < 2 ^ 31"
    by (simp_all add: storable_entry_def list_all_iff)
  have line: "entry_line e = entry_name e @ ?t # ?r1"
    by (simp add: entry_line_def)
  have a1: "scan_string 255 (entry_name e @ ?t # ?r1) = Some (entry_name e, ?t # ?r1)"
    using n by (rule scan_string_token) (rule isspace_tab_newline)
  have b1: "dropWhile c_isspace (?t # ?r1) = ?r1"
    using v token_ok_hd [OF v] by (intro skip_tab_before) (simp_all add: token_ok_def)
  have a2: "scan_string 63 ?r1 = Some (entry_version e, ?t # ?r2)"
    using v by (rule scan_string_token) (rule isspace_tab_newline)
  have b2: "dropWhile c_isspace (?t # ?r2) = ?r2"
    using d by (intro skip_tab_before) simp_all
  have a3: "scan_not_tab 511 ?r2 = Some (entry_description e, ?t # ?r3)"
    using d by (intro scan_not_tab_written) simp_all
  have b3: "dropWhile c_isspace (?t # ?r3) = ?r3"
    by (intro skip_tab_before) (simp_all add: int_to_dec_nonempty int_to_dec_hd)
  have a4: "scan_ld ?r3 = Some (entry_install_time e, ?t # ?r4)"
    using t by (intro scan_ld_written) (simp_all add: not_digit_tab_newline)
  have b4: "dropWhile c_isspace (?t # ?r4) = ?r4"
    by (intro skip_tab_before) (simp_all add: nat_to_dec_nonempty nat_to_dec_hd)
  have a5: "scan_zu ?r4 = Some (entry_installed_size e, ?t # ?r5)"
    using sz by (intro scan_zu_written) (simp_all add: not_digit_tab_newline)
  have b5: "dropWhile c_isspace (?t # ?r5) = ?r5"
    by (intro skip_tab_before) (simp_all add: int_to_dec_nonempty int_to_dec_hd)
  have a6: "scan_d ?r5 = Some (entry_state e, [CHR 0x0A])"
    using st by (intro scan_d_written) (simp_all add: not_digit_tab_newline)
  show ?thesis
    unfolding parse_entry_line_def line a1 option.case prod.case b1 a2 b2 a3 b3 Let_def a4 b4 a5 b5 a6
    by simp
qed

subsection \<open>Lines\<close>

text \<open>A line of the file as \<^verbatim>\<open>fgets\<close> returns it whole: it ends in its only newline and fits the buffer.\<close>

definition text_line :: "string \<Rightarrow> bool" where
  "text_line l = (l \<noteq> [] \<and> last l = CHR 0x0A \<and> CHR 0x0A \<notin> set (butlast l) \<and> length l \<le> 1023)"

lemma fgets_line:
  "CHR 0x0A \<notin> set body \<Longrightarrow> length body < n \<Longrightarrow> fgets n (body @ CHR 0x0A # rest) = (body @ [CHR 0x0A], rest)"
proof (induction body arbitrary: n)
  case Nil
  then show ?case by (cases n) simp_all
next
  case (Cons c body)
  from Cons.prems obtain m where n: "n = Suc m" by (cases n) auto
  with Cons show ?case by auto
qed

lemma fgets_text_line:
  assumes "text_line l"
  shows "fgets 1023 (l @ rest) = (l, rest)"
proof -
  from assms have l: "l = butlast l @ [CHR 0x0A]"
    by (metis append_butlast_last_id text_line_def)
  from assms have "CHR 0x0A \<notin> set (butlast l)" and "length (butlast l) < 1023"
    by (auto simp: text_line_def)
  then have "fgets 1023 (butlast l @ CHR 0x0A # rest) = (butlast l @ [CHR 0x0A], rest)"
    by (rule fgets_line)
  with l show ?thesis by (metis append.assoc append_Cons append_Nil)
qed

lemma read_lines_step:
  "s \<noteq> [] \<Longrightarrow> read_lines s = fst (fgets 1023 s) # read_lines (snd (fgets 1023 s))"
  by (cases s) (simp_all del: fgets.simps)

lemma read_lines_text_lines: "list_all text_line ls \<Longrightarrow> read_lines (concat ls) = ls"
proof (induction ls)
  case Nil
  then show ?case by simp
next
  case (Cons l ls)
  then have l: "text_line l" and ls: "list_all text_line ls" by simp_all
  from l have "l @ concat ls \<noteq> []" by (simp add: text_line_def)
  then have "read_lines (l @ concat ls)
      = fst (fgets 1023 (l @ concat ls)) # read_lines (snd (fgets 1023 (l @ concat ls)))"
    by (rule read_lines_step)
  with fgets_text_line [OF l, of "concat ls"] Cons.IH [OF ls] show ?case by simp
qed

lemma digits_not_newline: "c \<in> set (nat_to_dec n) \<Longrightarrow> c \<noteq> CHR 0x0A"
  using nat_to_dec_digits [of n] by (auto simp: list_all_iff not_digit_tab_newline)

lemma int_to_dec_not_newline: "c \<in> set (int_to_dec i) \<Longrightarrow> c \<noteq> CHR 0x0A"
  by (auto simp: int_to_dec_def dest: digits_not_newline split: if_splits)

lemma int_to_dec_length:
  assumes "0 < k" and "- (10 ^ k) < i" and "i < 10 ^ k"
  shows "length (int_to_dec i) \<le> Suc k"
proof -
  have "nat \<bar>i\<bar> < 10 ^ k"
    using assms(2,3) by (simp add: nat_less_iff abs_less_iff)
  with assms(1) have "length (nat_to_dec (nat \<bar>i\<bar>)) \<le> k" by (rule nat_to_dec_length)
  then show ?thesis by (cases "i < 0") (simp_all add: int_to_dec_def)
qed

lemma text_line_snoc:
  "CHR 0x0A \<notin> set body \<Longrightarrow> length body \<le> 1022 \<Longrightarrow> text_line (body @ [CHR 0x0A])"
  by (simp add: text_line_def)

lemma entry_line_text_line:
  assumes "storable_entry e"
  shows "text_line (entry_line e)"
proof -
  let ?t = "CHR 0x09"
  let ?body = "entry_name e @ ?t # entry_version e @ ?t # entry_description e @ ?t
      # int_to_dec (entry_install_time e) @ ?t # nat_to_dec (entry_installed_size e) @ ?t
      # int_to_dec (entry_state e)"
  have line: "entry_line e = ?body @ [CHR 0x0A]" by (simp add: entry_line_def)
  from assms have "list_all (\<lambda>c. \<not> c_isspace c) (entry_name e)"
    and "list_all (\<lambda>c. \<not> c_isspace c) (entry_version e)"
    and "list_all (\<lambda>c. c \<noteq> CHR 0x09 \<and> c \<noteq> CHR 0x0A) (entry_description e)"
    by (simp_all add: storable_entry_def token_ok_def)
  then have "CHR 0x0A \<notin> set (entry_name e)" and "CHR 0x0A \<notin> set (entry_version e)"
    and "CHR 0x0A \<notin> set (entry_description e)"
    using isspace_tab_newline(2) by (auto simp: list_all_iff)
  moreover have "CHR 0x0A \<notin> set (int_to_dec (entry_install_time e))"
    and "CHR 0x0A \<notin> set (nat_to_dec (entry_installed_size e))"
    and "CHR 0x0A \<notin> set (int_to_dec (entry_state e))"
    using int_to_dec_not_newline digits_not_newline by blast+
  ultimately have nl: "CHR 0x0A \<notin> set ?body" by simp
  from assms have "length (entry_name e) \<le> 255" and "length (entry_version e) \<le> 63"
    and "length (entry_description e) \<le> 511"
    by (simp_all add: storable_entry_def token_ok_def)
  moreover from assms have "length (int_to_dec (entry_install_time e)) \<le> Suc 19"
    by (intro int_to_dec_length) (simp_all add: storable_entry_def)
  moreover from assms have "length (nat_to_dec (entry_installed_size e)) \<le> 20"
    by (intro nat_to_dec_length) (simp_all add: storable_entry_def)
  moreover from assms have "length (int_to_dec (entry_state e)) \<le> Suc 10"
    by (intro int_to_dec_length) (simp_all add: storable_entry_def)
  ultimately have len: "length ?body \<le> 1022" by simp
  show ?thesis
    unfolding line using nl len by (rule text_line_snoc)
qed

lemma load_line_written:
  assumes "storable_entry e"
  shows "load_line head (entry_line e) = e # head"
proof -
  from assms have n: "token_ok 255 (entry_name e)" and h: "hd (entry_name e) \<noteq> CHR ''#''"
    by (simp_all add: storable_entry_def)
  from n have ne: "entry_name e \<noteq> []" by (simp add: token_ok_def)
  from n have sp: "\<not> c_isspace (hd (entry_name e))" by (rule token_ok_hd)
  from ne have "hd (entry_line e) = hd (entry_name e)" by (simp add: entry_line_def)
  moreover from sp have "hd (entry_name e) \<noteq> CHR 0x0A" using isspace_tab_newline(2) by auto
  ultimately show ?thesis
    using h by (simp add: load_line_def parse_entry_line_written [OF assms])
qed

lemma load_written_entries:
  "list_all storable_entry es \<Longrightarrow> foldl load_line acc (map entry_line es) = rev es @ acc"
  by (induction es arbitrary: acc) (simp_all add: load_line_written)

definition db_header_lines :: "string list" where
  "db_header_lines =
     [''# TinyPkg Installed Packages Database'' @ [CHR 0x0A],
      ''# Format: name'' @ [CHR 0x09] @ ''version'' @ [CHR 0x09] @ ''description'' @ [CHR 0x09]
        @ ''install_time'' @ [CHR 0x09] @ ''installed_size'' @ [CHR 0x09] @ ''state'' @ [CHR 0x0A]]"

lemma db_header_lines: "db_file_header = concat db_header_lines" "list_all text_line db_header_lines"
  "foldl load_line acc db_header_lines = acc"
  by (simp_all add: db_file_header_def db_header_lines_def text_line_def load_line_def)

text \<open>Reading a written file gives the written rows, the last one first.\<close>

lemma load_db_file_text:
  assumes "list_all storable_entry es"
  shows "foldl load_line acc (read_lines (db_file_text es)) = rev es @ acc"
proof -
  have "list_all text_line (map entry_line es)"
    using assms by (induction es) (simp_all add: entry_line_text_line)
  then have "list_all text_line (db_header_lines @ map entry_line es)"
    using db_header_lines(2) by simp
  then have "read_lines (concat (db_header_lines @ map entry_line es))
      = db_header_lines @ map entry_line es"
    by (rule read_lines_text_lines)
  then have "read_lines (db_file_text es) = db_header_lines @ map entry_line es"
    by (simp add: db_file_text_def db_header_lines(1))
  then show ?thesis
    by (simp add: db_header_lines(3) load_written_entries [OF assms])
qed

text \<open>
  A line of three fields is accepted, with zero in the numeric fields; the description
  takes the rest of the line with its newline. A line of two fields is dropped.
\<close>

lemma load_line_three_fields:
  assumes "token_ok 255 n" and "hd n \<noteq> CHR ''#''" and "token_ok 63 v"
    and "d \<noteq> []" and "length d \<le> 510" and "list_all (\<lambda>c. c \<noteq> CHR 0x09) d"
    and "\<not> c_isspace (hd d)"
  shows "load_line head (n @ [CHR 0x09] @ v @ [CHR 0x09] @ d @ [CHR 0x0A])
           = \<lparr>entry_name = n, entry_version = v, entry_description = d @ [CHR 0x0A],
              entry_install_time = 0, entry_installed_size = 0, entry_state = 0\<rparr> # head"
proof -
  let ?t = "CHR 0x09"
  let ?r2 = "d @ [CHR 0x0A]"
  let ?r1 = "v @ ?t # ?r2"
  have a1: "scan_string 255 (n @ ?t # ?r1) = Some (n, ?t # ?r1)"
    using assms(1) by (rule scan_string_token) (rule isspace_tab_newline)
  have b1: "dropWhile c_isspace (?t # ?r1) = ?r1"
    using assms(3) token_ok_hd [OF assms(3)] by (intro skip_tab_before) (simp_all add: token_ok_def)
  have a2: "scan_string 63 ?r1 = Some (v, ?t # ?r2)"
    using assms(3) by (rule scan_string_token) (rule isspace_tab_newline)
  have b2: "dropWhile c_isspace (?t # ?r2) = ?r2"
    using assms(4,7) by (intro skip_tab_before) simp_all
  have tw: "takeWhile (\<lambda>c. c \<noteq> ?t) ?r2 = ?r2"
    using assms(6) by (simp add: list_all_iff)
  have a3: "scan_not_tab 511 ?r2 = Some (?r2, [])"
    unfolding scan_not_tab_def Let_def tw using assms(4,5) by simp
  have a4: "scan_ld (dropWhile c_isspace []) = None"
    by (simp add: scan_ld_def scan_integer_def)
  from assms(1) have ne: "n \<noteq> []" by (simp add: token_ok_def)
  then have hd: "hd (n @ ?t # ?r1) = hd n" by simp
  from token_ok_hd [OF assms(1)] have "hd n \<noteq> CHR 0x0A" using isspace_tab_newline(2) by auto
  with assms(2) hd have skip: "\<not> (hd (n @ ?t # ?r1) = CHR ''#'' \<or> hd (n @ ?t # ?r1) = CHR 0x0A)"
    by simp
  have "parse_entry_line (n @ ?t # ?r1)
      = Some \<lparr>entry_name = n, entry_version = v, entry_description = ?r2,
              entry_install_time = 0, entry_installed_size = 0, entry_state = 0\<rparr>"
    unfolding parse_entry_line_def a1 option.case prod.case b1 a2 b2 a3 Let_def a4 by simp
  with skip show ?thesis by (simp add: load_line_def)
qed

lemma load_line_two_fields:
  assumes "token_ok 255 n" and "token_ok 63 v"
  shows "load_line head (n @ [CHR 0x09] @ v @ [CHR 0x0A]) = head"
proof -
  let ?t = "CHR 0x09"
  let ?r1 = "v @ [CHR 0x0A]"
  have a1: "scan_string 255 (n @ ?t # ?r1) = Some (n, ?t # ?r1)"
    using assms(1) by (rule scan_string_token) (rule isspace_tab_newline)
  have b1: "dropWhile c_isspace (?t # ?r1) = ?r1"
    using assms(2) token_ok_hd [OF assms(2)] by (intro skip_tab_before) (simp_all add: token_ok_def)
  have a2: "scan_string 63 (v @ CHR 0x0A # []) = Some (v, [CHR 0x0A])"
    using assms(2) by (rule scan_string_token) (rule isspace_tab_newline)
  have a3: "scan_not_tab 511 (dropWhile c_isspace [CHR 0x0A]) = None"
    by (simp add: scan_not_tab_def isspace_tab_newline)
  have "parse_entry_line (n @ ?t # ?r1) = None"
    unfolding parse_entry_line_def a1 option.case prod.case b1 using a2 a3 by simp
  then show ?thesis by (simp add: load_line_def)
qed


section \<open>Properties of the installed-packages database\<close>

definition entry_zlib :: package_db_entry_t where
  "entry_zlib = \<lparr>entry_name = ''zlib'', entry_version = ''1.3'',
     entry_description = ''compression library'', entry_install_time = 1700000000,
     entry_installed_size = 123456, entry_state = PKG_STATE_INSTALLED\<rparr>"

definition entry_vim :: package_db_entry_t where
  "entry_vim = \<lparr>entry_name = ''vim'', entry_version = ''9.1'',
     entry_description = ''text editor'', entry_install_time = 1700000100,
     entry_installed_size = 0, entry_state = PKG_STATE_INSTALLED\<rparr>"

definition example_db :: "package_db_entry_t list \<Rightarrow> db_state" where
  "example_db rows = \<lparr>package_db_head = rows, package_db_loaded = True, installed_txt = None,
     installed_txt_writable = True, unlinked = []\<rparr>"

lemma example_entries_storable: "storable_entry entry_zlib" "storable_entry entry_vim"
  by (simp_all add: storable_entry_def token_ok_def entry_zlib_def entry_vim_def c_isspace_def)

subsection \<open>Saving and loading\<close>

text \<open>
  C6 as stated fails: a process that loads the file saved from the rows \<^verbatim>\<open>zlib\<close>,
  \<^verbatim>\<open>vim\<close> gets the rows \<^verbatim>\<open>vim\<close>, \<^verbatim>\<open>zlib\<close>.
\<close>

theorem db_reload_reverses_counterexample:
  "package_db_head (example_db [entry_zlib, entry_vim]) = [entry_zlib, entry_vim]
   \<and> fst (package_db_save (example_db [entry_zlib, entry_vim])) = TINYPKG_SUCCESS
   \<and> package_db_head (snd (package_db_load
        ((snd (package_db_save (example_db [entry_zlib, entry_vim])))
           \<lparr>package_db_head := [], package_db_loaded := False\<rparr>)))
      = [entry_vim, entry_zlib]
   \<and> entry_zlib \<noteq> entry_vim"
  using load_db_file_text [of "[entry_zlib, entry_vim]" "[]"]
  by (simp add: example_entries_storable package_db_save_def package_db_load_def example_db_def)
     (simp add: entry_zlib_def entry_vim_def)

text \<open>
  C6, as amended. When every row can be held by the file format and the file can be
  written, \<^verbatim>\<open>package_db_save\<close> succeeds, and a process that starts with an empty list and
  loads the saved file gets the same rows with the same field values in the reverse
  order. On load, a line of three fields is accepted with zero in the numeric fields
  (the description then ends with the newline of the line), and a line of two fields is
  dropped.
\<close>

theorem package_db_load_after_save:
  assumes "list_all storable_entry (package_db_head s)" and "installed_txt_writable s"
  shows "package_db_save s
           = (TINYPKG_SUCCESS, s\<lparr>installed_txt := Some (db_file_text (package_db_head s))\<rparr>)
         \<and> package_db_load ((snd (package_db_save s))\<lparr>package_db_head := [], package_db_loaded := False\<rparr>)
           = (TINYPKG_SUCCESS,
              (snd (package_db_save s))\<lparr>package_db_head := rev (package_db_head s),
                                        package_db_loaded := True\<rparr>)
         \<and> (token_ok 255 n \<and> hd n \<noteq> CHR ''#'' \<and> token_ok 63 v \<and> d \<noteq> [] \<and> length d \<le> 510
              \<and> list_all (\<lambda>c. c \<noteq> CHR 0x09) d \<and> \<not> c_isspace (hd d)
            \<longrightarrow> load_line head (n @ [CHR 0x09] @ v @ [CHR 0x09] @ d @ [CHR 0x0A])
                = \<lparr>entry_name = n, entry_version = v, entry_description = d @ [CHR 0x0A],
                   entry_install_time = 0, entry_installed_size = 0, entry_state = 0\<rparr> # head)
         \<and> (token_ok 255 n \<and> token_ok 63 v
            \<longrightarrow> load_line head (n @ [CHR 0x09] @ v @ [CHR 0x0A]) = head)"
proof -
  have save: "package_db_save s
      = (TINYPKG_SUCCESS, s\<lparr>installed_txt := Some (db_file_text (package_db_head s))\<rparr>)"
    using assms(2) by (simp add: package_db_save_def)
  have load: "package_db_load ((snd (package_db_save s))\<lparr>package_db_head := [], package_db_loaded := False\<rparr>)
      = (TINYPKG_SUCCESS,
         (snd (package_db_save s))\<lparr>package_db_head := rev (package_db_head s),
                                   package_db_loaded := True\<rparr>)"
    using load_db_file_text [OF assms(1), of "[]"] by (simp add: save package_db_load_def)
  show ?thesis
    using save load load_line_three_fields [of n v d head] load_line_two_fields [of n v head]
    by blast
qed

theorem package_db_load_after_save_witness:
  "list_all storable_entry (package_db_head (example_db [entry_zlib, entry_vim]))
   \<and> installed_txt_writable (example_db [entry_zlib, entry_vim])
   \<and> package_db_load
        ((snd (package_db_save (example_db [entry_zlib, entry_vim])))
           \<lparr>package_db_head := [], package_db_loaded := False\<rparr>)
      = (TINYPKG_SUCCESS,
         (snd (package_db_save (example_db [entry_zlib, entry_vim])))
           \<lparr>package_db_head := [entry_vim, entry_zlib], package_db_loaded := True\<rparr>)
   \<and> load_line [] (''foo'' @ [CHR 0x09] @ ''1.0'' @ [CHR 0x09] @ ''bar'' @ [CHR 0x0A])
      = [\<lparr>entry_name = ''foo'', entry_version = ''1.0'', entry_description = ''bar'' @ [CHR 0x0A],
          entry_install_time = 0, entry_installed_size = 0, entry_state = 0\<rparr>]
   \<and> load_line [] (''foo'' @ [CHR 0x09] @ ''1.0'' @ [CHR 0x0A]) = []"
proof -
  have st: "list_all storable_entry (package_db_head (example_db [entry_zlib, entry_vim]))"
    and wr: "installed_txt_writable (example_db [entry_zlib, entry_vim])"
    by (simp_all add: example_db_def example_entries_storable)
  have tok: "token_ok 255 ''foo''" "hd ''foo'' \<noteq> CHR ''#''" "token_ok 63 ''1.0''"
    "''bar'' \<noteq> []" "length ''bar'' \<le> 510" "list_all (\<lambda>c. c \<noteq> CHR 0x09) ''bar''"
    "\<not> c_isspace (hd ''bar'')"
    by (simp_all add: token_ok_def c_isspace_def)
  have rv: "rev (package_db_head (example_db [entry_zlib, entry_vim])) = [entry_vim, entry_zlib]"
    by (simp add: example_db_def)
  note t = package_db_load_after_save [OF st wr, of "''foo''" "''1.0''" "''bar''" "[]"]
  note t2 = t [THEN conjunct2, THEN conjunct1, unfolded rv]
  note t3 = t [THEN conjunct2, THEN conjunct2, THEN conjunct1]
  note t4 = t [THEN conjunct2, THEN conjunct2, THEN conjunct2]
  show ?thesis using st wr t2 t3 t4 tok by simp
qed

subsection \<open>Adding, finding and removing rows\<close>

lemma package_db_head_save: "package_db_head (snd (package_db_save s)) = package_db_head s"
  by (simp add: package_db_save_def)

lemma package_db_find_None: "package_db_find n es = None \<longleftrightarrow> n \<notin> set (map entry_name es)"
  by (induction es) auto

lemma package_db_find_Some: "package_db_find n es = Some e \<Longrightarrow> entry_name e = n \<and> e \<in> set es"
  by (induction es) (auto split: if_splits)

lemma unlink_first_absent: "package_db_find n es = None \<Longrightarrow> unlink_first n es = es"
  by (induction es) (auto split: if_splits)

lemma package_db_head_remove:
  "package_db_head (snd (package_db_remove n s)) = unlink_first n (package_db_head s)"
  by (simp add: package_db_remove_def package_db_head_save unlink_first_absent)

lemma unlink_first_names: "set (map entry_name (unlink_first n es)) \<subseteq> set (map entry_name es)"
  by (induction es) auto

lemma unlink_first_distinct:
  "distinct (map entry_name es) \<Longrightarrow>
     distinct (map entry_name (unlink_first n es)) \<and> n \<notin> set (map entry_name (unlink_first n es))"
proof (induction es)
  case Nil
  then show ?case by simp
next
  case (Cons e es)
  then show ?case using unlink_first_names [of n es] by auto
qed

lemma package_db_head_add:
  "package_db_head (snd (package_db_add pkg s))
     = \<lparr>entry_name = c_strncpy (MAX_NAME - 1) (name pkg),
        entry_version = c_strncpy (MAX_VERSION - 1) (version pkg),
        entry_description = c_strncpy (MAX_DESCRIPTION - 1) (description pkg),
        entry_install_time = install_time pkg, entry_installed_size = size_estimate pkg,
        entry_state = PKG_STATE_INSTALLED\<rparr> # unlink_first (name pkg) (package_db_head s)"
  using package_db_head_remove [of "name pkg" s]
  by (cases "package_db_remove (name pkg) s") (simp add: package_db_add_def package_db_head_save)

text \<open>
  C7 as stated fails: the package that the loader returns has the state
  \<^verbatim>\<open>PKG_STATE_UNKNOWN\<close>, and the row found after adding it has the state
  \<^verbatim>\<open>PKG_STATE_INSTALLED\<close>.
\<close>

theorem package_db_add_state_counterexample:
  "state example_pkg = PKG_STATE_UNKNOWN
   \<and> map_option entry_state
        (package_db_find (name example_pkg)
           (package_db_head (snd (package_db_add example_pkg (example_db [])))))
      = Some PKG_STATE_INSTALLED"
  by (simp add: package_db_head_add example_db_def example_pkg_def c_strncpy_def)

text \<open>
  C7, as amended. For a package whose name, version and description fit the buffers of
  the record, the row found under the package's name after \<^verbatim>\<open>package_db_add\<close> has the
  name, version, description and install time of the package, its size estimate as
  installed size, and the state \<^verbatim>\<open>PKG_STATE_INSTALLED\<close>. If the names in the database are
  unique they stay unique, and after \<^verbatim>\<open>package_db_remove\<close> of a name no row of the name
  is found.
\<close>

theorem package_db_add_find_remove:
  assumes "length (name pkg) < MAX_NAME" and "length (version pkg) < MAX_VERSION"
    and "length (description pkg) < MAX_DESCRIPTION"
  shows "package_db_find (name pkg) (package_db_head (snd (package_db_add pkg s)))
           = Some \<lparr>entry_name = name pkg, entry_version = version pkg,
                   entry_description = description pkg, entry_install_time = install_time pkg,
                   entry_installed_size = size_estimate pkg, entry_state = PKG_STATE_INSTALLED\<rparr>
         \<and> (distinct (map entry_name (package_db_head s))
              \<longrightarrow> distinct (map entry_name (package_db_head (snd (package_db_add pkg s)))))
         \<and> (distinct (map entry_name (package_db_head s))
              \<longrightarrow> package_db_find n (package_db_head (snd (package_db_remove n s))) = None)"
proof -
  from assms have fit: "c_strncpy (MAX_NAME - 1) (name pkg) = name pkg"
    "c_strncpy (MAX_VERSION - 1) (version pkg) = version pkg"
    "c_strncpy (MAX_DESCRIPTION - 1) (description pkg) = description pkg"
    by (simp_all add: c_strncpy_def)
  have found: "package_db_find (name pkg) (package_db_head (snd (package_db_add pkg s)))
      = Some \<lparr>entry_name = name pkg, entry_version = version pkg,
              entry_description = description pkg, entry_install_time = install_time pkg,
              entry_installed_size = size_estimate pkg, entry_state = PKG_STATE_INSTALLED\<rparr>"
    by (simp only: package_db_head_add fit) simp
  have uniq: "distinct (map entry_name (package_db_head (snd (package_db_add pkg s))))"
    if "distinct (map entry_name (package_db_head s))"
    using unlink_first_distinct [OF that, of "name pkg"]
    by (simp only: package_db_head_add fit) simp
  have gone: "package_db_find n (package_db_head (snd (package_db_remove n s))) = None"
    if "distinct (map entry_name (package_db_head s))"
    using unlink_first_distinct [OF that, of n]
    by (simp add: package_db_head_remove package_db_find_None)
  from found uniq gone show ?thesis by blast
qed

theorem package_db_add_find_remove_witness:
  "length (name example_pkg) < MAX_NAME \<and> length (version example_pkg) < MAX_VERSION
   \<and> length (description example_pkg) < MAX_DESCRIPTION
   \<and> distinct (map entry_name (package_db_head (example_db [entry_zlib, entry_vim])))
   \<and> package_db_find ''hello''
        (package_db_head (snd (package_db_add example_pkg (example_db [entry_zlib, entry_vim]))))
      = Some \<lparr>entry_name = ''hello'', entry_version = ''1.0'', entry_description = ''demo'',
              entry_install_time = 0, entry_installed_size = 0, entry_state = PKG_STATE_INSTALLED\<rparr>
   \<and> distinct (map entry_name
        (package_db_head (snd (package_db_add example_pkg (example_db [entry_zlib, entry_vim])))))
   \<and> package_db_find ''vim''
        (package_db_head (snd (package_db_remove ''vim'' (example_db [entry_zlib, entry_vim]))))
      = None"
proof -
  have fit: "length (name example_pkg) < MAX_NAME" "length (version example_pkg) < MAX_VERSION"
    "length (description example_pkg) < MAX_DESCRIPTION"
    by (simp_all add: example_pkg_def)
  have d: "distinct (map entry_name (package_db_head (example_db [entry_zlib, entry_vim])))"
    by (simp add: example_db_def entry_zlib_def entry_vim_def)
  from package_db_add_find_remove [OF fit, of "example_db [entry_zlib, entry_vim]" "''vim''"] fit d
  show ?thesis by (simp add: example_pkg_def)
qed


subsection \<open>Removal and dependents\<close>

lemma package_db_load_twice:
  "package_db_load (snd (package_db_load s)) = (TINYPKG_SUCCESS, snd (package_db_load s))"
  by (simp add: package_db_load_def split: option.splits)

lemma package_db_load_result: "fst (package_db_load s) = TINYPKG_SUCCESS"
  by (simp add: package_db_load_def split: option.splits)

lemma package_is_installed_eq:
  "package_is_installed pname s
     = (package_db_find pname (package_db_head (snd (package_db_load s))) \<noteq> None,
        snd (package_db_load s))"
  using package_db_load_result [of s]
  by (cases "package_db_load s") (simp add: package_is_installed_def)

lemma dependency_find_dependents_loaded:
  "dependency_find_dependents cat pname (snd (package_db_load s))
     = ((TINYPKG_SUCCESS,
         find_dependents_of cat (map entry_name (package_db_head (snd (package_db_load s)))) pname),
        snd (package_db_load s))"
  by (simp add: dependency_find_dependents_def package_db_load_twice package_db_get_all_def)

lemma package_remove_files_effect:
  "fst (package_remove_files fl pname s) = TINYPKG_SUCCESS
   \<and> package_db_head (snd (package_remove_files fl pname s)) = unlink_first pname (package_db_head s)"
proof -
  let ?s1 = "case fl pname of None \<Rightarrow> s | Some files \<Rightarrow> s\<lparr>unlinked := unlinked s @ rev files\<rparr>"
  have h: "package_db_head ?s1 = package_db_head s" by (cases "fl pname") simp_all
  show ?thesis
    using package_db_head_remove [of pname ?s1]
    by (cases "package_db_remove pname ?s1") (simp add: package_remove_files_def h)
qed

text \<open>
  C9. \<^verbatim>\<open>package_remove\<close> first loads the database. If the package has no row, it returns
  success and changes nothing else. If it has a row, force mode is off and
  \<^verbatim>\<open>dependency_find_dependents\<close> returns names, it returns \<^verbatim>\<open>TINYPKG_ERROR_DEPENDENCY\<close>,
  the database is as loaded and the row is still found. If it has a row and force mode
  is on, the result does not depend on the dependents: the files are unlinked, the row
  is taken out of the list and the call returns success.
\<close>

theorem package_remove_behaviour:
  "(\<not> fst (package_is_installed pname s)
      \<longrightarrow> package_remove cat cfg fl pname s = (TINYPKG_SUCCESS, snd (package_db_load s)))
   \<and> (fst (package_is_installed pname s) \<and> \<not> force_mode cfg
        \<and> snd (fst (dependency_find_dependents cat pname (snd (package_db_load s)))) \<noteq> []
      \<longrightarrow> package_remove cat cfg fl pname s = (TINYPKG_ERROR_DEPENDENCY, snd (package_db_load s))
          \<and> package_db_find pname (package_db_head (snd (package_remove cat cfg fl pname s))) \<noteq> None)
   \<and> (fst (package_is_installed pname s) \<and> force_mode cfg
      \<longrightarrow> package_remove cat cfg fl pname s = package_remove_files fl pname (snd (package_db_load s))
          \<and> fst (package_remove cat cfg fl pname s) = TINYPKG_SUCCESS
          \<and> package_db_head (snd (package_remove cat cfg fl pname s))
              = unlink_first pname (package_db_head (snd (package_db_load s))))"
proof -
  let ?s1 = "snd (package_db_load s)"
  have a: "package_remove cat cfg fl pname s = (TINYPKG_SUCCESS, ?s1)"
    if "\<not> fst (package_is_installed pname s)"
    using that by (simp add: package_remove_def package_is_installed_eq)
  have b: "package_remove cat cfg fl pname s = (TINYPKG_ERROR_DEPENDENCY, ?s1)
      \<and> package_db_find pname (package_db_head (snd (package_remove cat cfg fl pname s))) \<noteq> None"
    if "fst (package_is_installed pname s)" and "\<not> force_mode cfg"
      and "snd (fst (dependency_find_dependents cat pname ?s1)) \<noteq> []"
    using that
    by (auto simp: package_remove_def package_is_installed_eq dependency_find_dependents_loaded)
  have c: "package_remove cat cfg fl pname s = package_remove_files fl pname ?s1
      \<and> fst (package_remove cat cfg fl pname s) = TINYPKG_SUCCESS
      \<and> package_db_head (snd (package_remove cat cfg fl pname s))
          = unlink_first pname (package_db_head ?s1)"
    if "fst (package_is_installed pname s)" and "force_mode cfg"
  proof -
    from that have "package_remove cat cfg fl pname s = package_remove_files fl pname ?s1"
      by (auto simp: package_remove_def package_is_installed_eq)
    with package_remove_files_effect [of fl pname ?s1] show ?thesis by simp
  qed
  from a b c show ?thesis by blast
qed

definition entry_app :: package_db_entry_t where
  "entry_app = entry_zlib\<lparr>entry_name := ''app''\<rparr>"

definition entry_lib :: package_db_entry_t where
  "entry_lib = entry_zlib\<lparr>entry_name := ''lib''\<rparr>"

text \<open>
  With the rows \<^verbatim>\<open>app\<close> and \<^verbatim>\<open>lib\<close>, where \<^verbatim>\<open>app\<close> depends on \<^verbatim>\<open>lib\<close>: removing a
  package without a row succeeds, removing \<^verbatim>\<open>lib\<close> fails and keeps its row, and removing
  \<^verbatim>\<open>lib\<close> in force mode succeeds and leaves the row of \<^verbatim>\<open>app\<close>.
\<close>

theorem package_remove_behaviour_witness:
  "\<not> fst (package_is_installed ''core'' (example_db [entry_app, entry_lib]))
   \<and> package_remove chain_catalog (example_cfg False) (\<lambda>n. None) ''core''
        (example_db [entry_app, entry_lib])
      = (TINYPKG_SUCCESS, example_db [entry_app, entry_lib])
   \<and> fst (package_is_installed ''lib'' (example_db [entry_app, entry_lib]))
   \<and> \<not> force_mode (example_cfg False)
   \<and> snd (fst (dependency_find_dependents chain_catalog ''lib''
        (snd (package_db_load (example_db [entry_app, entry_lib]))))) = [''app'']
   \<and> package_remove chain_catalog (example_cfg False) (\<lambda>n. None) ''lib''
        (example_db [entry_app, entry_lib])
      = (TINYPKG_ERROR_DEPENDENCY, example_db [entry_app, entry_lib])
   \<and> force_mode ((example_cfg False)\<lparr>force_mode := True\<rparr>)
   \<and> fst (package_remove chain_catalog ((example_cfg False)\<lparr>force_mode := True\<rparr>) (\<lambda>n. None) ''lib''
        (example_db [entry_app, entry_lib])) = TINYPKG_SUCCESS
   \<and> package_db_head (snd (package_remove chain_catalog ((example_cfg False)\<lparr>force_mode := True\<rparr>)
        (\<lambda>n. None) ''lib'' (example_db [entry_app, entry_lib]))) = [entry_app]"
proof -
  have ld: "package_db_load (example_db [entry_app, entry_lib])
      = (TINYPKG_SUCCESS, example_db [entry_app, entry_lib])"
    by (simp add: package_db_load_def example_db_def)
  have i1: "\<not> fst (package_is_installed ''core'' (example_db [entry_app, entry_lib]))"
    and i2: "fst (package_is_installed ''lib'' (example_db [entry_app, entry_lib]))"
    by (simp_all add: package_is_installed_eq ld)
       (simp_all add: example_db_def entry_app_def entry_lib_def entry_zlib_def)
  have f: "\<not> force_mode (example_cfg False)" "force_mode ((example_cfg False)\<lparr>force_mode := True\<rparr>)"
    by (simp_all add: example_cfg_def)
  have dp: "snd (fst (dependency_find_dependents chain_catalog ''lib''
        (snd (package_db_load (example_db [entry_app, entry_lib]))))) = [''app'']"
    by (simp add: dependency_find_dependents_def package_db_load_def package_db_get_all_def
        find_dependents_of_def example_db_def entry_app_def entry_lib_def entry_zlib_def
        chain_catalog_def pkg_with_deps_def)
  have ul: "unlink_first ''lib'' (package_db_head (example_db [entry_app, entry_lib])) = [entry_app]"
    by (simp add: example_db_def entry_app_def entry_lib_def entry_zlib_def)
  note t1 = package_remove_behaviour [of "''core''" "example_db [entry_app, entry_lib]"
      chain_catalog "example_cfg False" "\<lambda>n. None"]
  note t2 = package_remove_behaviour [of "''lib''" "example_db [entry_app, entry_lib]"
      chain_catalog "example_cfg False" "\<lambda>n. None"]
  note t3 = package_remove_behaviour [of "''lib''" "example_db [entry_app, entry_lib]"
      chain_catalog "(example_cfg False)\<lparr>force_mode := True\<rparr>" "\<lambda>n. None"]
  from t1 i1 have r1: "package_remove chain_catalog (example_cfg False) (\<lambda>n. None) ''core''
        (example_db [entry_app, entry_lib]) = (TINYPKG_SUCCESS, example_db [entry_app, entry_lib])"
    by (simp add: ld)
  from t2 i2 f(1) dp have r2: "package_remove chain_catalog (example_cfg False) (\<lambda>n. None) ''lib''
        (example_db [entry_app, entry_lib]) = (TINYPKG_ERROR_DEPENDENCY, example_db [entry_app, entry_lib])"
    by (simp add: ld)
  note c3 = t3 [THEN conjunct2, THEN conjunct2, rule_format, OF conjI [OF i2 f(2)]]
  from c3 [THEN conjunct2] have r3: "fst (package_remove chain_catalog ((example_cfg False)\<lparr>force_mode := True\<rparr>)
        (\<lambda>n. None) ''lib'' (example_db [entry_app, entry_lib])) = TINYPKG_SUCCESS
      \<and> package_db_head (snd (package_remove chain_catalog ((example_cfg False)\<lparr>force_mode := True\<rparr>)
        (\<lambda>n. None) ''lib'' (example_db [entry_app, entry_lib]))) = [entry_app]"
    by (simp add: ld ul)
  from i1 i2 f dp r1 r2 r3 show ?thesis by simp
qed


section \<open>Installing a package (\<^verbatim>\<open>package_install\<close>)\<close>

subsection \<open>The install step of the build runner\<close>

definition build_install_files ::
  "'w sys \<Rightarrow> config_t \<Rightarrow> build_context_t \<Rightarrow> ('w, 'a) proc_scheme \<Rightarrow> int \<times> ('w, 'a) proc_scheme" where
  "build_install_files os cfg ctx s =
     (let pkg = package ctx;
          cmd = (if length (install_cmd pkg) > 0 then c_strncpy (MAX_CMD - 1) (install_cmd pkg)
                 else c_snprintf MAX_CMD (''make install DESTDIR='' @ quoted (install_dir ctx)
                        @ '' PREFIX='' @ quoted (install_prefix cfg)));
          (result, s1) = utils_run_command os cmd (Some (source_dir ctx)) s
      in if result = TINYPKG_SUCCESS
         then utils_run_command os
                (c_snprintf MAX_CMD (''cp -a '' @ quoted (install_dir ctx) @ ''/* / 2>/dev/null || true''))
                None s1
         else (result, s1))"

definition build_install_package ::
  "'w sys \<Rightarrow> config_t \<Rightarrow> nat option \<Rightarrow> package_t \<Rightarrow> ('w, 'a) proc_scheme
     \<Rightarrow> int \<times> ('w, 'a) proc_scheme" where
  "build_install_package os cfg alloc pkg s =
     (case build_context_create os alloc pkg s of
        (None, s0) \<Rightarrow> (TINYPKG_ERROR_MEMORY, s0)
      | (Some ctx, s0) \<Rightarrow> build_install_files os cfg (ctx\<lparr>status := BUILD_STATUS_INSTALLING\<rparr>) s0)"

subsection \<open>Validation and conflicts\<close>

definition package_validate :: "package_t \<Rightarrow> int" where
  "package_validate pkg =
     (if length (name pkg) = 0 then TINYPKG_ERROR
      else if length (version pkg) = 0 then TINYPKG_ERROR
      else if length (source_url pkg) = 0 then TINYPKG_ERROR
      else TINYPKG_SUCCESS)"

fun check_conflicts_loop :: "string list \<Rightarrow> db_state \<Rightarrow> int \<times> db_state" where
  "check_conflicts_loop [] s = (TINYPKG_SUCCESS, s)"
| "check_conflicts_loop (c # cs) s =
     (case package_is_installed c s of
        (True, s1) \<Rightarrow> (TINYPKG_ERROR_DEPENDENCY, s1)
      | (False, s1) \<Rightarrow> check_conflicts_loop cs s1)"

definition package_check_conflicts :: "package_t \<Rightarrow> db_state \<Rightarrow> int \<times> db_state" where
  "package_check_conflicts pkg s = check_conflicts_loop (conflicts pkg) s"

subsection \<open>\<^verbatim>\<open>package_install\<close>\<close>

text \<open>
  The state of an installation is the database together with the process state of the
  build runner. \<^verbatim>\<open>package_install\<close> calls itself for the dependencies, without a bound
  in the source; the first argument bounds the depth of the calls, and the result is
  nothing when the bound is reached. \<open>now\<close> is the value of \<^verbatim>\<open>time(NULL)\<close>, \<open>alloc\<close> what
  \<^verbatim>\<open>calloc\<close> returns for a build context. The part of \<^verbatim>\<open>package_install\<close> from
  \<^verbatim>\<open>package_set_state(package_name, PKG_STATE_BUILDING)\<close> on is \<open>package_install_build\<close>.
\<close>

definition package_install_build ::
  "'w sys \<Rightarrow> config_t \<Rightarrow> nat option \<Rightarrow> int \<Rightarrow> string \<Rightarrow> package_t \<Rightarrow> db_state \<times> 'w proc
     \<Rightarrow> int \<times> (db_state \<times> 'w proc)" where
  "package_install_build os cfg alloc now pname pkg st =
     (let (_, db1) = package_set_state pname PKG_STATE_BUILDING (fst st);
          ((result, ctx), p1) = build_package os cfg alloc pkg (snd st)
      in if result \<noteq> TINYPKG_SUCCESS
         then (result, (snd (package_set_state pname PKG_STATE_FAILED db1), p1))
         else
           let pkg1 = (case ctx of None \<Rightarrow> pkg | Some c \<Rightarrow> package c);
               (_, db2) = package_set_state pname PKG_STATE_INSTALLING db1;
               (result2, p2) = build_install_package os cfg alloc pkg1 p1
           in if result2 \<noteq> TINYPKG_SUCCESS
              then (result2, (snd (package_set_state pname PKG_STATE_FAILED db2), p2))
              else
                let pkg2 = pkg1\<lparr>install_time := now\<rparr>;
                    (_, db3) = package_set_state pname PKG_STATE_INSTALLED db2;
                    (_, db4) = package_db_add pkg2 db3;
                    p3 = (if length (post_install_cmd pkg2) > 0
                          then snd (utils_run_command os (post_install_cmd pkg2) None p2) else p2)
                in (TINYPKG_SUCCESS, (db4, p3)))"

fun package_install ::
  "nat \<Rightarrow> 'w sys \<Rightarrow> config_t \<Rightarrow> catalog \<Rightarrow> nat option \<Rightarrow> int \<Rightarrow> string \<Rightarrow> db_state \<times> 'w proc
     \<Rightarrow> (int \<times> (db_state \<times> 'w proc)) option"
and install_dependencies ::
  "nat \<Rightarrow> 'w sys \<Rightarrow> config_t \<Rightarrow> catalog \<Rightarrow> nat option \<Rightarrow> int \<Rightarrow> string list \<Rightarrow> db_state \<times> 'w proc
     \<Rightarrow> (int \<times> (db_state \<times> 'w proc)) option"
where
  "package_install 0 os cfg package_load_info alloc now pname st = None"
| "package_install (Suc depth) os cfg package_load_info alloc now pname st =
     (let (installed, db1) = package_is_installed pname (fst st)
      in if installed \<and> \<not> force_mode cfg then Some (TINYPKG_SUCCESS, (db1, snd st))
         else
           (case package_load_info pname of
              None \<Rightarrow> Some (TINYPKG_ERROR, (db1, snd st))
            | Some pkg \<Rightarrow>
                if package_validate pkg \<noteq> TINYPKG_SUCCESS
                then Some (package_validate pkg, (db1, snd st))
                else
                  let (rc, db2) = package_check_conflicts pkg db1
                  in if rc \<noteq> TINYPKG_SUCCESS then Some (rc, (db2, snd st))
                     else
                       let (_, db3) = package_set_state pname PKG_STATE_DOWNLOADING db2
                       in if \<not> skip_dependencies cfg \<and> dependencies pkg \<noteq> []
                          then
                            let (rd, install_order) = dependency_resolve package_load_info pname
                            in if rd \<noteq> TINYPKG_SUCCESS
                               then Some (rd, (snd (package_set_state pname PKG_STATE_FAILED db3), snd st))
                               else
                                 (case install_dependencies depth os cfg package_load_info alloc now
                                         (butlast install_order) (db3, snd st) of
                                    None \<Rightarrow> None
                                  | Some (ri, st1) \<Rightarrow>
                                      if ri \<noteq> TINYPKG_SUCCESS
                                      then Some (ri, (snd (package_set_state pname PKG_STATE_FAILED (fst st1)),
                                                      snd st1))
                                      else Some (package_install_build os cfg alloc now pname pkg st1))
                          else Some (package_install_build os cfg alloc now pname pkg (db3, snd st))))"
| "install_dependencies depth os cfg package_load_info alloc now [] st = Some (TINYPKG_SUCCESS, st)"
| "install_dependencies depth os cfg package_load_info alloc now (d # ds) st =
     (let (installed, db1) = package_is_installed d (fst st)
      in if \<not> installed
         then (case package_install depth os cfg package_load_info alloc now d (db1, snd st) of
                 None \<Rightarrow> None
               | Some (r, st1) \<Rightarrow>
                   if r \<noteq> TINYPKG_SUCCESS then Some (r, st1)
                   else install_dependencies depth os cfg package_load_info alloc now ds st1)
         else install_dependencies depth os cfg package_load_info alloc now ds (db1, snd st))"


subsection \<open>Installing a package that has no row\<close>

lemma package_set_state_no_row:
  "package_db_find pname (package_db_head s) = None \<Longrightarrow> package_set_state pname st s = (TINYPKG_SUCCESS, s)"
  by (simp add: package_set_state_def)

lemma package_is_installed_loaded:
  "package_db_loaded s \<Longrightarrow>
     package_is_installed n s = (package_db_find n (package_db_head s) \<noteq> None, s)"
  by (simp add: package_is_installed_def package_db_load_def)

lemma check_conflicts_loop_loaded: "package_db_loaded s \<Longrightarrow> snd (check_conflicts_loop cs s) = s"
  by (induction cs) (simp_all add: package_is_installed_loaded split: bool.splits)

lemma package_install_build_no_row:
  assumes "package_db_find pname (package_db_head db) = None"
  shows "\<exists>r db' p'. package_install_build os cfg alloc now pname pkg (db, p) = (r, (db', p'))
           \<and> (db' = db \<or> r = TINYPKG_SUCCESS \<and> (\<exists>pkg2. db' = snd (package_db_add pkg2 db)))"
proof -
  obtain r1 ctx p1 where b: "build_package os cfg alloc pkg p = ((r1, ctx), p1)"
    by (cases "build_package os cfg alloc pkg p") auto
  let ?pkg1 = "case ctx of None \<Rightarrow> pkg | Some c \<Rightarrow> package c"
  obtain r2 p2 where i: "build_install_package os cfg alloc ?pkg1 p1 = (r2, p2)"
    by (cases "build_install_package os cfg alloc ?pkg1 p1")
  obtain r3 db4 where a: "package_db_add (?pkg1\<lparr>install_time := now\<rparr>) db = (r3, db4)"
    by (cases "package_db_add (?pkg1\<lparr>install_time := now\<rparr>) db")
  then have d: "\<exists>pkg2. db4 = snd (package_db_add pkg2 db)"
    by (intro exI [of _ "?pkg1\<lparr>install_time := now\<rparr>"]) simp
  show ?thesis
  proof (cases "r1 = TINYPKG_SUCCESS \<and> r2 = TINYPKG_SUCCESS")
    case True
    with b i a d show ?thesis
      by (simp add: package_install_build_def package_set_state_no_row [OF assms] Let_def)
  next
    case False
    with b i show ?thesis
      by (auto simp: package_install_build_def package_set_state_no_row [OF assms] Let_def)
  qed
qed

lemma row_after_add:
  assumes "package_db_find pname (package_db_head db) = None"
  shows "case package_db_find pname (package_db_head (snd (package_db_add pkg2 db))) of
           None \<Rightarrow> True | Some e \<Rightarrow> entry_state e = PKG_STATE_INSTALLED"
proof -
  from assms have "pname \<notin> set (map entry_name (package_db_head db))"
    by (simp add: package_db_find_None)
  with unlink_first_names [of "name pkg2" "package_db_head db"]
  have "pname \<notin> set (map entry_name (unlink_first (name pkg2) (package_db_head db)))" by blast
  then have "package_db_find pname (unlink_first (name pkg2) (package_db_head db)) = None"
    by (simp add: package_db_find_None)
  then show ?thesis by (simp add: package_db_head_add)
qed

lemma package_install_no_row:
  assumes "package_db_find pname (package_db_head s) = None" and "package_db_loaded s"
    and "skip_dependencies cfg \<or> (case cat pname of None \<Rightarrow> True | Some pkg \<Rightarrow> dependencies pkg = [])"
  shows "\<exists>r db' p'. package_install (Suc depth) os cfg cat alloc now pname (s, p) = Some (r, (db', p'))
           \<and> (db' = s \<or> r = TINYPKG_SUCCESS \<and> (\<exists>pkg2. db' = snd (package_db_add pkg2 s)))"
proof (cases "cat pname")
  case None
  with assms show ?thesis by (simp add: package_is_installed_loaded)
next
  case (Some pkg)
  from assms(3) Some have nodeps: "skip_dependencies cfg \<or> dependencies pkg = []" by simp
  have cc: "package_check_conflicts pkg s = (fst (package_check_conflicts pkg s), s)"
    using check_conflicts_loop_loaded [OF assms(2), of "conflicts pkg"]
    by (simp add: package_check_conflicts_def prod_eq_iff)
  show ?thesis
  proof (cases "package_validate pkg \<noteq> TINYPKG_SUCCESS \<or> fst (package_check_conflicts pkg s) \<noteq> TINYPKG_SUCCESS")
    case True
    then show ?thesis
      using assms(1,2) Some cc
      by (cases "package_check_conflicts pkg s") (auto simp: package_is_installed_loaded)
  next
    case False
    from package_install_build_no_row [OF assms(1), of os cfg alloc now pkg p]
    obtain r db' p' where
      "package_install_build os cfg alloc now pname pkg (s, p) = (r, (db', p'))"
      "db' = s \<or> r = TINYPKG_SUCCESS \<and> (\<exists>pkg2. db' = snd (package_db_add pkg2 s))"
      by blast
    then show ?thesis
      using assms(1,2) Some False nodeps cc
      by (cases "package_check_conflicts pkg s")
         (auto simp: package_is_installed_loaded package_set_state_no_row)
  qed
qed

subsection \<open>State changes of packages without a row\<close>

text \<open>
  C10. For a name without a row, \<^verbatim>\<open>package_set_state\<close> returns success and leaves the
  list, the file and everything else as they are, for every state; so the calls that
  \<^verbatim>\<open>package_install\<close> makes for the states downloading, building, installing and failed,
  in any number and order, leave the database without a row of the name. A first install
  of a package whose dependencies are not installed with it (it declares none, or
  dependencies are skipped) returns, and the database it leaves is either the one it
  found, or the one that \<^verbatim>\<open>package_db_add\<close> makes of the one it found: a row of the name,
  if there is one, has the state installed.
\<close>

theorem package_set_state_without_row:
  assumes "package_db_find pname (package_db_head s) = None"
  shows "package_set_state pname st s = (TINYPKG_SUCCESS, s)
         \<and> (list_all (\<lambda>x. x \<in> {PKG_STATE_DOWNLOADING, PKG_STATE_BUILDING, PKG_STATE_INSTALLING,
                                  PKG_STATE_FAILED}) sts
              \<longrightarrow> foldl (\<lambda>s' x. snd (package_set_state pname x s')) s sts = s)
         \<and> (package_db_loaded s
              \<and> (skip_dependencies cfg
                   \<or> (case package_load_info pname of None \<Rightarrow> True | Some pkg \<Rightarrow> dependencies pkg = []))
              \<longrightarrow> (\<exists>r db' p'.
                     package_install (Suc depth) os cfg package_load_info alloc now pname (s, p)
                       = Some (r, (db', p'))
                     \<and> (db' = s \<or> r = TINYPKG_SUCCESS \<and> (\<exists>pkg2. db' = snd (package_db_add pkg2 s)))
                     \<and> (case package_db_find pname (package_db_head db') of
                          None \<Rightarrow> True | Some e \<Rightarrow> entry_state e = PKG_STATE_INSTALLED)))"
proof -
  have one: "package_set_state pname x s = (TINYPKG_SUCCESS, s)" for x
    using assms by (rule package_set_state_no_row)
  have many: "foldl (\<lambda>s' x. snd (package_set_state pname x s')) s xs = s" for xs
    by (induction xs) (simp_all add: one)
  have install: "\<exists>r db' p'.
      package_install (Suc depth) os cfg package_load_info alloc now pname (s, p) = Some (r, (db', p'))
      \<and> (db' = s \<or> r = TINYPKG_SUCCESS \<and> (\<exists>pkg2. db' = snd (package_db_add pkg2 s)))
      \<and> (case package_db_find pname (package_db_head db') of
           None \<Rightarrow> True | Some e \<Rightarrow> entry_state e = PKG_STATE_INSTALLED)"
    if l: "package_db_loaded s"
      and d: "skip_dependencies cfg
              \<or> (case package_load_info pname of None \<Rightarrow> True | Some pkg \<Rightarrow> dependencies pkg = [])"
  proof -
    from package_install_no_row [where cat = package_load_info, OF assms l d, of depth os alloc now p]
    obtain r db' p' where
      run: "package_install (Suc depth) os cfg package_load_info alloc now pname (s, p)
              = Some (r, (db', p'))"
      and db: "db' = s \<or> r = TINYPKG_SUCCESS \<and> (\<exists>pkg2. db' = snd (package_db_add pkg2 s))"
      by blast
    have "case package_db_find pname (package_db_head db') of
            None \<Rightarrow> True | Some e \<Rightarrow> entry_state e = PKG_STATE_INSTALLED"
    proof (cases "db' = s")
      case True
      with assms show ?thesis by simp
    next
      case False
      with db obtain pkg2 where "db' = snd (package_db_add pkg2 s)" by blast
      with row_after_add [OF assms, of pkg2] show ?thesis by simp
    qed
    with run db show ?thesis by blast
  qed
  from one many install show ?thesis by blast
qed

theorem package_set_state_without_row_witness:
  "package_db_find ''core'' (package_db_head (example_db [entry_zlib, entry_vim])) = None
   \<and> package_set_state ''core'' PKG_STATE_DOWNLOADING (example_db [entry_zlib, entry_vim])
      = (TINYPKG_SUCCESS, example_db [entry_zlib, entry_vim])
   \<and> foldl (\<lambda>s' x. snd (package_set_state ''core'' x s')) (example_db [entry_zlib, entry_vim])
        [PKG_STATE_DOWNLOADING, PKG_STATE_BUILDING, PKG_STATE_INSTALLING, PKG_STATE_FAILED]
      = example_db [entry_zlib, entry_vim]
   \<and> (\<exists>r db' p'.
         package_install (Suc 0) (example_os 0 ''d41d8cd98f00b204e9800998ecf8427e'')
           (example_cfg False) chain_catalog (Some 42) 1700000000 ''core''
           (example_db [entry_zlib, entry_vim], example_proc [])
         = Some (r, (db', p'))
         \<and> (case package_db_find ''core'' (package_db_head db') of
              None \<Rightarrow> True | Some e \<Rightarrow> entry_state e = PKG_STATE_INSTALLED))"
proof -
  have a: "package_db_find ''core'' (package_db_head (example_db [entry_zlib, entry_vim])) = None"
    by (simp add: example_db_def entry_zlib_def entry_vim_def)
  note t = package_set_state_without_row [OF a, of PKG_STATE_DOWNLOADING
      "[PKG_STATE_DOWNLOADING, PKG_STATE_BUILDING, PKG_STATE_INSTALLING, PKG_STATE_FAILED]"
      "example_cfg False" chain_catalog 0 "example_os 0 ''d41d8cd98f00b204e9800998ecf8427e''"
      "Some 42" 1700000000 "example_proc []"]
  have b: "list_all (\<lambda>x. x \<in> {PKG_STATE_DOWNLOADING, PKG_STATE_BUILDING, PKG_STATE_INSTALLING,
      PKG_STATE_FAILED})
      [PKG_STATE_DOWNLOADING, PKG_STATE_BUILDING, PKG_STATE_INSTALLING, PKG_STATE_FAILED :: int]"
    by simp
  have c: "package_db_loaded (example_db [entry_zlib, entry_vim])
      \<and> (skip_dependencies (example_cfg False)
           \<or> (case chain_catalog ''core'' of None \<Rightarrow> True | Some pkg \<Rightarrow> dependencies pkg = []))"
    by (simp add: example_db_def chain_catalog_def pkg_with_deps_def)
  from t [THEN conjunct2, THEN conjunct2, rule_format, OF c]
  obtain r db' p' where
    "package_install (Suc 0) (example_os 0 ''d41d8cd98f00b204e9800998ecf8427e'')
       (example_cfg False) chain_catalog (Some 42) 1700000000 ''core''
       (example_db [entry_zlib, entry_vim], example_proc [])
     = Some (r, (db', p'))"
    "case package_db_find ''core'' (package_db_head db') of
       None \<Rightarrow> True | Some e \<Rightarrow> entry_state e = PKG_STATE_INSTALLED"
    by blast
  then have d: "\<exists>r db' p'.
      package_install (Suc 0) (example_os 0 ''d41d8cd98f00b204e9800998ecf8427e'')
        (example_cfg False) chain_catalog (Some 42) 1700000000 ''core''
        (example_db [entry_zlib, entry_vim], example_proc [])
      = Some (r, (db', p'))
      \<and> (case package_db_find ''core'' (package_db_head db') of
           None \<Rightarrow> True | Some e \<Rightarrow> entry_state e = PKG_STATE_INSTALLED)"
    by blast
  from t [THEN conjunct2, THEN conjunct1] b
  have e: "foldl (\<lambda>s' x. snd (package_set_state ''core'' x s')) (example_db [entry_zlib, entry_vim])
        [PKG_STATE_DOWNLOADING, PKG_STATE_BUILDING, PKG_STATE_INSTALLING, PKG_STATE_FAILED]
      = example_db [entry_zlib, entry_vim]"
    by blast
  from a t [THEN conjunct1] e d show ?thesis by (intro conjI)
qed

text \<open>A row that exists does take the state.\<close>

lemma package_set_state_with_row:
  "package_set_state ''vim'' PKG_STATE_FAILED (example_db [entry_zlib, entry_vim])
     = (TINYPKG_SUCCESS,
        (example_db [entry_zlib, entry_vim\<lparr>entry_state := PKG_STATE_FAILED\<rparr>])
          \<lparr>installed_txt := Some (db_file_text [entry_zlib, entry_vim\<lparr>entry_state := PKG_STATE_FAILED\<rparr>])\<rparr>)"
  by (simp add: package_set_state_def package_db_save_def example_db_def entry_zlib_def entry_vim_def)

subsection \<open>Installing a package that declares a dependency\<close>

text \<open>
  \<^verbatim>\<open>package_install\<close> installs the names of the resolver's order but the last, which it
  takes to be the package itself. The resolver puts the package first, so the first name
  that \<^verbatim>\<open>package_install\<close> installs for \<^verbatim>\<open>app\<close> is \<^verbatim>\<open>app\<close>, in the state in which it was
  called: the calls never end, whatever the bound on their depth.
\<close>

lemma chain_catalog_order:
  "dependency_resolve chain_catalog ''app'' = (TINYPKG_SUCCESS, [''app'', ''lib''])"
  by (simp add: resolver_defs chain_catalog_def Let_def)

lemma package_install_app_never_returns:
  "package_install depth os (example_cfg False) chain_catalog alloc now ''app'' (example_db [], p)
     = None"
proof (induction depth)
  case 0
  show ?case by simp
next
  case (Suc depth)
  have l: "package_db_loaded (example_db [])" by (simp add: example_db_def)
  have f: "package_db_find n (package_db_head (example_db [])) = None" for n
    by (simp add: example_db_def package_db_find_None)
  have deps: "install_dependencies depth os (example_cfg False) chain_catalog alloc now [''app'']
                (example_db [], p) = None"
    using Suc by (simp add: package_is_installed_loaded [OF l] f)
  have cc: "package_check_conflicts (pkg_with_deps ''app'' [''lib'']) (example_db [])
              = (TINYPKG_SUCCESS, example_db [])"
    by (simp add: package_check_conflicts_def pkg_with_deps_def example_pkg_def)
  have v: "package_validate (pkg_with_deps ''app'' [''lib'']) = TINYPKG_SUCCESS"
    by (simp add: package_validate_def pkg_with_deps_def example_pkg_def)
  have c: "chain_catalog ''app'' = Some (pkg_with_deps ''app'' [''lib''])"
    by (simp add: chain_catalog_def)
  have d: "dependencies (pkg_with_deps ''app'' [''lib'']) = [''lib'']"
    by (simp add: pkg_with_deps_def)
  have s: "\<not> skip_dependencies (example_cfg False)" by (simp add: example_cfg_def)
  show ?case
    by (simp add: package_is_installed_loaded [OF l] f c v cc d s package_set_state_no_row
          chain_catalog_order deps del: install_dependencies.simps)
qed

section \<open>The table of active builds across builds and installs\<close>






lemma context_create_addr:
  "fst (build_context_create os alloc pkg s) = Some ctx \<Longrightarrow> alloc = Some (ctx_addr ctx)"
  by (auto simp: build_context_create_def Let_def case_prod_beta split: option.splits if_splits)




















end
